theory Spec2Isabelle
  imports Complex_Main "HOL-Library.Sublist" "HOL-Library.Log_Nat"
begin

unbundle bit_operations_syntax

section \<open>Device tree generation for OpenPiton+Ariane (riscvlib.py)\<close>

text \<open>
  A shallow embedding of \<^verbatim>\<open>piton/tools/bin/riscvlib.py\<close>. Python integers are
  unbounded and are modelled by \<^typ>\<open>int\<close>; Python strings are \<^typ>\<open>string\<close>;
  a raised exception is the \<open>Inl\<close> side of a sum. The text a function writes to
  its output file is what the model returns, together with the file's path.
\<close>

subsection \<open>Errors\<close>

datatype error =
    AssertionError | KeyError string | ValueError | OverflowError | ZeroDivisionError
  | CalledProcessError

subsection \<open>The \<open>%\<close> conversions of Python that the script uses\<close>

definition hex_char :: "nat \<Rightarrow> char" where
  "hex_char d = ''0123456789abcdef'' ! d"

text \<open>
  The digits of a non-negative integer, most significant first. The argument is an
  \<^typ>\<open>int\<close>, as Python's is; the callers pass magnitudes only.
\<close>

function hex_digits :: "int \<Rightarrow> string" where
  "hex_digits n = (if n < 16 then [hex_char (nat n)]
                   else hex_digits (n div 16) @ [hex_char (nat (n mod 16))])"
  by pat_completeness auto
termination
  by (relation "measure nat") auto

function dec_digits :: "int \<Rightarrow> string" where
  "dec_digits n = (if n < 10 then [hex_char (nat n)]
                   else dec_digits (n div 10) @ [hex_char (nat (n mod 10))])"
  by pat_completeness auto
termination
  by (relation "measure nat") auto

definition lpad :: "char \<Rightarrow> nat \<Rightarrow> string \<Rightarrow> string" where
  "lpad c w s = replicate (w - length s) c @ s"

text \<open>
  \<^verbatim>\<open>"%08x" % n\<close>: lower-case hexadecimal, padded with zeros to a width of at
  least 8; a negative number keeps its sign in front of the padding.
\<close>

definition fmt_08x :: "int \<Rightarrow> string" where
  "fmt_08x n = (if 0 \<le> n then lpad (CHR ''0'') 8 (hex_digits n)
                else ''-'' @ lpad (CHR ''0'') 7 (hex_digits (- n)))"

text \<open>\<^verbatim>\<open>"%d" % n\<close> and \<^verbatim>\<open>"%3d" % n\<close> for an integer \<open>n\<close>.\<close>

definition fmt_d :: "int \<Rightarrow> string" where
  "fmt_d n = (if 0 \<le> n then dec_digits n else ''-'' @ dec_digits (- n))"

definition fmt_3d :: "int \<Rightarrow> string" where
  "fmt_3d n = lpad (CHR '' '') 3 (fmt_d n)"

subsection \<open>\<open>_reg_fmt\<close>: the reg leaf entry\<close>

text \<open>
  \<^verbatim>\<open>
  def _reg_fmt(addrBase, addrLen, addrCells, sizeCells):
      assert addrCells >= 1 or addrCells <= 2
      assert sizeCells >= 0 or sizeCells <= 2
      tmpStr = " "
      if addrCells >= 2: tmpStr += "0x%08x " % (addrBase >> 32)
      if addrCells >= 1: tmpStr += "0x%08x " % (addrBase & 0xFFFFFFFF)
      if sizeCells >= 2: tmpStr += "0x%08x " % (addrLen >> 32)
      if sizeCells >= 1: tmpStr += "0x%08x " % (addrLen & 0xFFFFFFFF)
      return tmpStr
  \<close>
  Python's \<open>>>\<close> and \<open>&\<close> on unbounded integers are \<^const>\<open>drop_bit\<close> and
  \<open>AND\<close> on \<^typ>\<open>int\<close> (two's complement with an infinite sign extension).
\<close>

definition reg_fmt :: "int \<Rightarrow> int \<Rightarrow> int \<Rightarrow> int \<Rightarrow> error + string" where
  "reg_fmt addrBase addrLen addrCells sizeCells =
    (if \<not> (addrCells \<ge> 1 \<or> addrCells \<le> 2) then Inl AssertionError
     else if \<not> (sizeCells \<ge> 0 \<or> sizeCells \<le> 2) then Inl AssertionError
     else
       let tmpStr = '' '';
           tmpStr = (if addrCells \<ge> 2 then tmpStr @ ''0x'' @ fmt_08x (drop_bit 32 addrBase) @ '' '' else tmpStr);
           tmpStr = (if addrCells \<ge> 1 then tmpStr @ ''0x'' @ fmt_08x (addrBase AND 0xFFFFFFFF) @ '' '' else tmpStr);
           tmpStr = (if sizeCells \<ge> 2 then tmpStr @ ''0x'' @ fmt_08x (drop_bit 32 addrLen) @ '' '' else tmpStr);
           tmpStr = (if sizeCells \<ge> 1 then tmpStr @ ''0x'' @ fmt_08x (addrLen AND 0xFFFFFFFF) @ '' '' else tmpStr)
       in Inr tmpStr)"

subsection \<open>Reading a reg entry back\<close>

text \<open>
  The observations the properties of \<open>_reg_fmt\<close> are stated with: the tokens of a
  string (the maximal runs of characters other than the space), and the test that
  a token is \<open>0x\<close> followed by exactly eight hexadecimal digits of a given value.
\<close>

fun tokens_from :: "string \<Rightarrow> string \<Rightarrow> string list" where
  "tokens_from cur [] = (if cur = [] then [] else [cur])"
| "tokens_from cur (c # cs) =
     (if c = CHR '' '' then (if cur = [] then [] else [cur]) @ tokens_from [] cs
      else tokens_from (cur @ [c]) cs)"

definition tokens :: "string \<Rightarrow> string list" where
  "tokens s = tokens_from [] s"

definition hex_digit_val :: "char \<Rightarrow> int" where
  "hex_digit_val c = int (length (takeWhile (\<lambda>d. d \<noteq> c) ''0123456789abcdef''))"

definition is_hex_char :: "char \<Rightarrow> bool" where
  "is_hex_char c = (c \<in> set ''0123456789abcdef'')"

definition hex_value :: "string \<Rightarrow> int" where
  "hex_value ds = foldl (\<lambda>a c. 16 * a + hex_digit_val c) 0 ds"

definition is_cell_token :: "string \<Rightarrow> int \<Rightarrow> bool" where
  "is_cell_token t v =
     (take 2 t = ''0x'' \<and> length t = 10 \<and> list_all is_hex_char (drop 2 t)
      \<and> hex_value (drop 2 t) = v)"

subsection \<open>The device inventory\<close>

text \<open>
  \<^verbatim>\<open>devices\<close> is the list that \<^verbatim>\<open>pyhplib.ReadDevicesXMLFile()\<close> returns: one
  dictionary per device with the keys \<^verbatim>\<open>"name"\<close>, \<^verbatim>\<open>"base"\<close> and
  \<^verbatim>\<open>"length"\<close>. The loops \<^verbatim>\<open>for i in range(len(devices))\<close> read
  \<^verbatim>\<open>devices[i]\<close> only, so they are recursions over the list.
\<close>

record device =
  name :: string
  base :: int
  length_d :: int

subsection \<open>\<open>gen_riscv_dts\<close>: the text templates\<close>

text \<open>
  Each template of the source is one function of the values that \<open>%\<close> substitutes
  into it, line for line as in the source. \<open>reg\<close> is the string that
  \<open>_reg_fmt\<close> returned.
\<close>

definition dts_header :: \<open>string \<Rightarrow> int \<Rightarrow> string\<close> where
  \<open>dts_header timeStamp timeBaseFreq =
     ''// DTS generated with gen_riscv_dts(...)\<newline>'' @
     ''// OpenPiton + Ariane framework\<newline>'' @
     ''// Date: '' @ timeStamp @ ''\<newline>'' @
     ''\<newline>'' @
     ''/dts-v1/;\<newline>'' @
     ''\<newline>'' @
     ''/ {\<newline>'' @
     ''    #address-cells = <2>;\<newline>'' @
     ''    #size-cells = <2>;\<newline>'' @
     ''    u-boot,dm-pre-reloc;\<newline>'' @
     ''    compatible = "openpiton,cva6platform";\<newline>'' @
     ''\<newline>'' @
     ''    chosen {\<newline>'' @
     ''    u-boot,dm-pre-reloc;\<newline>'' @
     ''    stdout-path = "uart0:115200";\<newline>'' @
     ''    };\<newline>'' @
     ''\<newline>'' @
     ''    aliases {\<newline>'' @
     ''        u-boot,dm-pre-reloc;\<newline>'' @
     ''        console = &uart0;\<newline>'' @
     ''        serial0 = &uart0;\<newline>'' @
     ''    };\<newline>'' @
     ''\<newline>'' @
     ''    cpus {\<newline>'' @
     ''        #address-cells = <1>;\<newline>'' @
     ''        #size-cells = <0>;\<newline>'' @
     ''        u-boot,dm-pre-reloc;\<newline>'' @
     ''        timebase-frequency = <'' @ fmt_d timeBaseFreq @ ''>;\<newline>'' @
     ''    ''\<close>

definition cpu_node :: \<open>int \<Rightarrow> int \<Rightarrow> string\<close> where
  \<open>cpu_node k cpuFreq =
     ''\<newline>'' @
     ''        CPU'' @ fmt_d k @ '': cpu@'' @ fmt_d k @ '' {\<newline>'' @
     ''            clock-frequency = <'' @ fmt_d cpuFreq @ ''>;\<newline>'' @
     ''            u-boot,dm-pre-reloc;\<newline>'' @
     ''            device_type = "cpu";\<newline>'' @
     ''            reg = <'' @ fmt_d k @ ''>;\<newline>'' @
     ''            status = "okay";\<newline>'' @
     ''            compatible = "openhwgroup, cva6", "riscv";\<newline>'' @
     ''            riscv,isa = "rv64imafdc";\<newline>'' @
     ''            mmu-type = "riscv,sv39";\<newline>'' @
     ''            tlb-split;\<newline>'' @
     ''            // HLIC - hart local interrupt controller\<newline>'' @
     ''            CPU'' @ fmt_d k @ ''_intc: interrupt-controller {\<newline>'' @
     ''                #interrupt-cells = <1>;\<newline>'' @
     ''                interrupt-controller;\<newline>'' @
     ''                compatible = "riscv,cpu-intc";\<newline>'' @
     ''            };\<newline>'' @
     ''        };\<newline>'' @
     ''        ''\<close>

definition cpus_close :: \<open>string\<close> where
  \<open>cpus_close =
     ''\<newline>'' @
     ''    };\<newline>'' @
     ''    ''\<close>

definition memory_node :: \<open>int \<Rightarrow> string \<Rightarrow> string\<close> where
  \<open>memory_node addrBase reg =
     ''\<newline>'' @
     ''    memory@'' @ fmt_08x addrBase @ '' {\<newline>'' @
     ''        u-boot,dm-pre-reloc;\<newline>'' @
     ''        device_type = "memory";\<newline>'' @
     ''        reg = <'' @ reg @ ''>;\<newline>'' @
     ''    };\<newline>'' @
     ''            ''\<close>

definition clint_head :: \<open>int \<Rightarrow> string\<close> where
  \<open>clint_head addrBase =
     ''\<newline>'' @
     ''        clint@'' @ fmt_08x addrBase @ '' {\<newline>'' @
     ''            u-boot,dm-pre-reloc;\<newline>'' @
     ''            compatible = "riscv,clint0";\<newline>'' @
     ''            interrupts-extended = <''\<close>

definition clint_irq :: \<open>int \<Rightarrow> string\<close> where
  \<open>clint_irq k =
     ''&CPU'' @ fmt_d k @ ''_intc 3 &CPU'' @ fmt_d k @ ''_intc 7 ''\<close>

definition clint_tail :: \<open>string \<Rightarrow> string\<close> where
  \<open>clint_tail reg =
     ''>;\<newline>'' @
     ''            reg = <'' @ reg @ ''>;\<newline>'' @
     ''            reg-names = "control";\<newline>'' @
     ''        };\<newline>'' @
     ''            ''\<close>

definition plic_head :: \<open>int \<Rightarrow> string\<close> where
  \<open>plic_head addrBase =
     ''\<newline>'' @
     ''        PLIC0: plic@'' @ fmt_08x addrBase @ '' {\<newline>'' @
     ''            u-boot,dm-pre-reloc;\<newline>'' @
     ''            #address-cells = <0>;\<newline>'' @
     ''            #interrupt-cells = <1>;\<newline>'' @
     ''            compatible = "riscv,plic0";\<newline>'' @
     ''            interrupt-controller;\<newline>'' @
     ''            interrupts-extended = <''\<close>

definition plic_irq :: \<open>int \<Rightarrow> string\<close> where
  \<open>plic_irq k =
     ''&CPU'' @ fmt_d k @ ''_intc 11 &CPU'' @ fmt_d k @ ''_intc 9 ''\<close>

definition plic_tail :: \<open>string \<Rightarrow> int \<Rightarrow> string\<close> where
  \<open>plic_tail reg numIrqs =
     ''>;\<newline>'' @
     ''            reg = <'' @ reg @ ''>;\<newline>'' @
     ''            riscv,max-priority = <7>;\<newline>'' @
     ''            riscv,ndev = <'' @ fmt_d numIrqs @ ''>;\<newline>'' @
     ''        };\<newline>'' @
     ''            ''\<close>

definition uart_node :: \<open>int \<Rightarrow> string \<Rightarrow> int \<Rightarrow> int \<Rightarrow> string\<close> where
  \<open>uart_node addrBase reg periphFreq ioDeviceNr =
     ''\<newline>'' @
     ''        uart0: uart@'' @ fmt_08x addrBase @ '' {\<newline>'' @
     ''            u-boot,dm-pre-reloc;\<newline>'' @
     ''            compatible = "ns16550";\<newline>'' @
     ''            reg = <'' @ reg @ ''>;\<newline>'' @
     ''            clock-frequency = <'' @ fmt_d periphFreq @ ''>;\<newline>'' @
     ''            current-speed = <115200>;\<newline>'' @
     ''            interrupt-parent = <&PLIC0>;\<newline>'' @
     ''            interrupts = <'' @ fmt_d ioDeviceNr @ ''>;\<newline>'' @
     ''            reg-shift = <0>; // regs are spaced on 8 bit boundary (modified from Xilinx UART16550 to be ns16550 compatible)\<newline>'' @
     ''        };\<newline>'' @
     ''            ''\<close>

definition sd_node :: \<open>int \<Rightarrow> string \<Rightarrow> string\<close> where
  \<open>sd_node addrBase reg =
     ''\<newline>'' @
     ''        sdhci_0: sdhci@'' @ fmt_08x addrBase @ '' {\<newline>'' @
     ''            u-boot,dm-pre-reloc;\<newline>'' @
     ''            status = "okay";\<newline>'' @
     ''            compatible = "openpiton,piton-mmc";\<newline>'' @
     ''            reg = <'' @ reg @ ''>;\<newline>'' @
     ''        };\<newline>'' @
     ''            ''\<close>

definition eth_node :: \<open>int \<Rightarrow> string \<Rightarrow> int \<Rightarrow> string\<close> where
  \<open>eth_node addrBase reg ioDeviceNr =
     ''\<newline>'' @
     ''        eth: ethernet@'' @ fmt_08x addrBase @ '' {\<newline>'' @
     ''            compatible = "xlnx,xps-ethernetlite-1.00.a";\<newline>'' @
     ''            device_type = "network";\<newline>'' @
     ''            reg = <'' @ reg @ ''>;\<newline>'' @
     ''            interrupt-parent = <&PLIC0>;\<newline>'' @
     ''            interrupts = <'' @ fmt_d ioDeviceNr @ ''>;\<newline>'' @
     ''            local-mac-address = [ 00 18 3E 02 E3 E5 ];\<newline>'' @
     ''            phy-handle = <&phy0>;\<newline>'' @
     ''            xlnx,duplex = <0x1>;\<newline>'' @
     ''            xlnx,include-global-buffers = <0x1>;\<newline>'' @
     ''            xlnx,include-internal-loopback = <0x0>;\<newline>'' @
     ''            xlnx,include-mdio = <0x1>;\<newline>'' @
     ''            xlnx,rx-ping-pong = <0x1>;\<newline>'' @
     ''            xlnx,s-axi-id-width = <0x1>;\<newline>'' @
     ''            xlnx,tx-ping-pong = <0x1>;\<newline>'' @
     ''            xlnx,use-internal = <0x0>;\<newline>'' @
     ''            axi_ethernetlite_0_mdio: mdio {\<newline>'' @
     ''                #address-cells = <1>;\<newline>'' @
     ''                #size-cells = <0>;\<newline>'' @
     ''                phy0: phy@1 {\<newline>'' @
     ''                    compatible = "ethernet-phy-id001C.C915";\<newline>'' @
     ''                    device_type = "ethernet-phy";\<newline>'' @
     ''                    reg = <1>;\<newline>'' @
     ''                };\<newline>'' @
     ''            };\<newline>'' @
     ''        };\<newline>'' @
     ''            ''\<close>

definition dts_footer :: \<open>string\<close> where
  \<open>dts_footer =
     ''\<newline>'' @
     ''};\<newline>'' @
     ''    ''\<close>

subsection \<open>\<open>gen_riscv_dts\<close>: the loops\<close>

text \<open>
  \<^verbatim>\<open>
  uartBase = 0xDEADBEEF
  for i in range(len(devices)):
      if devices[i]["name"] == "uart":
          uartBase = devices[i]["base"]
  \<close>
\<close>

fun uart_base_loop :: "device list \<Rightarrow> int \<Rightarrow> int" where
  "uart_base_loop [] uartBase = uartBase"
| "uart_base_loop (d # ds) uartBase =
     uart_base_loop ds (if name d = ''uart'' then base d else uartBase)"

definition uart_base :: "device list \<Rightarrow> int" where
  "uart_base devices = uart_base_loop devices 0xDEADBEEF"

text \<open>\<^verbatim>\<open>for k in range(nCpus): tmpStr += ... % (k,k,cpuFreq,k,k)\<close>\<close>

function cpu_loop :: "int \<Rightarrow> int \<Rightarrow> int \<Rightarrow> string \<Rightarrow> string" where
  "cpu_loop k nCpus cpuFreq tmpStr =
     (if k < nCpus then cpu_loop (k + 1) nCpus cpuFreq (tmpStr @ cpu_node k cpuFreq) else tmpStr)"
  by pat_completeness auto
termination
  by (relation "measure (\<lambda>(k, nCpus, cpuFreq, tmpStr). nat (nCpus - k))") auto

text \<open>
  \<^verbatim>\<open>
  for i in range(len(devices)):
      if devices[i]["name"] == "mem":
          addrBase = devices[i]["base"]
          addrLen  = devices[i]["length"]
          tmpStr += ... % (addrBase, _reg_fmt(addrBase, addrLen, 2, 2))
  \<close>
\<close>

fun mem_loop :: "device list \<Rightarrow> string \<Rightarrow> error + string" where
  "mem_loop [] tmpStr = Inr tmpStr"
| "mem_loop (d # ds) tmpStr =
     (if name d = ''mem'' then
        (case reg_fmt (base d) (length_d d) 2 2 of
           Inl e \<Rightarrow> Inl e
         | Inr reg \<Rightarrow> mem_loop ds (tmpStr @ memory_node (base d) reg))
      else mem_loop ds tmpStr)"

text \<open>
  \<^verbatim>\<open>
  numIrqs = 0
  devWithIrq = ["uart", "net"];
  for i in range(len(devices)):
      if devices[i]["name"] in devWithIrq:
          numIrqs += 1
  \<close>
\<close>

definition devWithIrq :: "string list" where
  "devWithIrq = [''uart'', ''net'']"

fun irq_count_loop :: "device list \<Rightarrow> int \<Rightarrow> int" where
  "irq_count_loop [] numIrqs = numIrqs"
| "irq_count_loop (d # ds) numIrqs =
     irq_count_loop ds (if name d \<in> set devWithIrq then numIrqs + 1 else numIrqs)"

text \<open>
  The two inner loops \<^verbatim>\<open>for k in range(nCpus)\<close> of the CLINT and PLIC nodes.
\<close>

function clint_loop :: "int \<Rightarrow> int \<Rightarrow> string \<Rightarrow> string" where
  "clint_loop k nCpus tmpStr =
     (if k < nCpus then clint_loop (k + 1) nCpus (tmpStr @ clint_irq k) else tmpStr)"
  by pat_completeness auto
termination
  by (relation "measure (\<lambda>(k, nCpus, tmpStr). nat (nCpus - k))") auto

function plic_loop :: "int \<Rightarrow> int \<Rightarrow> string \<Rightarrow> string" where
  "plic_loop k nCpus tmpStr =
     (if k < nCpus then plic_loop (k + 1) nCpus (tmpStr @ plic_irq k) else tmpStr)"
  by pat_completeness auto
termination
  by (relation "measure (\<lambda>(k, nCpus, tmpStr). nat (nCpus - k))") auto

text \<open>
  The body of the loop over the remaining peripherals, one \<^verbatim>\<open>if\<close> after the
  other as in the source; the state is \<open>(tmpStr, ioDeviceNr)\<close>.
\<close>

definition on_clint :: "int \<Rightarrow> device \<Rightarrow> string \<times> int \<Rightarrow> error + string \<times> int" where
  "on_clint nCpus d st =
     (case st of (tmpStr, ioDeviceNr) \<Rightarrow>
        if name d = ''ariane_clint'' then
          let addrBase = base d;
              addrLen = length_d d;
              tmpStr = tmpStr @ clint_head addrBase;
              tmpStr = clint_loop 0 nCpus tmpStr
          in (case reg_fmt addrBase addrLen 2 2 of
                Inl e \<Rightarrow> Inl e
              | Inr reg \<Rightarrow> Inr (tmpStr @ clint_tail reg, ioDeviceNr))
        else Inr (tmpStr, ioDeviceNr))"

definition on_plic :: "int \<Rightarrow> int \<Rightarrow> device \<Rightarrow> string \<times> int \<Rightarrow> error + string \<times> int" where
  "on_plic nCpus numIrqs d st =
     (case st of (tmpStr, ioDeviceNr) \<Rightarrow>
        if name d = ''ariane_plic'' then
          let addrBase = base d;
              addrLen = length_d d;
              tmpStr = tmpStr @ plic_head addrBase;
              tmpStr = plic_loop 0 nCpus tmpStr
          in (case reg_fmt addrBase addrLen 2 2 of
                Inl e \<Rightarrow> Inl e
              | Inr reg \<Rightarrow> Inr (tmpStr @ plic_tail reg numIrqs, ioDeviceNr))
        else Inr (tmpStr, ioDeviceNr))"

definition on_uart :: "int \<Rightarrow> device \<Rightarrow> string \<times> int \<Rightarrow> error + string \<times> int" where
  "on_uart periphFreq d st =
     (case st of (tmpStr, ioDeviceNr) \<Rightarrow>
        if name d = ''uart'' then
          let addrBase = base d;
              addrLen = length_d d
          in (case reg_fmt addrBase addrLen 2 2 of
                Inl e \<Rightarrow> Inl e
              | Inr reg \<Rightarrow>
                  Inr (tmpStr @ uart_node addrBase reg periphFreq ioDeviceNr, ioDeviceNr + 1))
        else Inr (tmpStr, ioDeviceNr))"

definition on_sd :: "device \<Rightarrow> string \<times> int \<Rightarrow> error + string \<times> int" where
  "on_sd d st =
     (case st of (tmpStr, ioDeviceNr) \<Rightarrow>
        if name d = ''sd'' then
          let addrBase = base d;
              addrLen = length_d d
          in (case reg_fmt addrBase addrLen 2 2 of
                Inl e \<Rightarrow> Inl e
              | Inr reg \<Rightarrow> Inr (tmpStr @ sd_node addrBase reg, ioDeviceNr))
        else Inr (tmpStr, ioDeviceNr))"

definition on_net :: "device \<Rightarrow> string \<times> int \<Rightarrow> error + string \<times> int" where
  "on_net d st =
     (case st of (tmpStr, ioDeviceNr) \<Rightarrow>
        if name d = ''net'' then
          let addrBase = base d;
              addrLen = length_d d
          in (case reg_fmt addrBase addrLen 2 2 of
                Inl e \<Rightarrow> Inl e
              | Inr reg \<Rightarrow> Inr (tmpStr @ eth_node addrBase reg ioDeviceNr, ioDeviceNr + 1))
        else Inr (tmpStr, ioDeviceNr))"

definition then_do :: "error + 'a \<Rightarrow> ('a \<Rightarrow> error + 'b) \<Rightarrow> error + 'b" where
  "then_do r f = (case r of Inl e \<Rightarrow> Inl e | Inr x \<Rightarrow> f x)"

definition periph_body ::
  "int \<Rightarrow> int \<Rightarrow> int \<Rightarrow> device \<Rightarrow> string \<times> int \<Rightarrow> error + string \<times> int" where
  "periph_body nCpus periphFreq numIrqs d st =
     then_do (then_do (then_do (then_do (on_clint nCpus d st) (on_plic nCpus numIrqs d))
       (on_uart periphFreq d)) (on_sd d)) (on_net d)"

fun periph_loop ::
  "int \<Rightarrow> int \<Rightarrow> int \<Rightarrow> device list \<Rightarrow> string \<times> int \<Rightarrow> error + string \<times> int" where
  "periph_loop nCpus periphFreq numIrqs [] st = Inr st"
| "periph_loop nCpus periphFreq numIrqs (d # ds) st =
     then_do (periph_body nCpus periphFreq numIrqs d st) (periph_loop nCpus periphFreq numIrqs ds)"

subsection \<open>\<open>gen_riscv_dts\<close>\<close>

text \<open>
  The result is the path of the file that is opened for writing and the text written
  to it. The three frequencies are substituted with \<open>%d\<close> and are integers here.
  \<open>uartBase\<close> is computed first, as in the source, and not read again.
\<close>

definition gen_riscv_dts ::
  "device list \<Rightarrow> int \<Rightarrow> int \<Rightarrow> int \<Rightarrow> int \<Rightarrow> string \<Rightarrow> string \<Rightarrow> error + string \<times> string" where
  "gen_riscv_dts devices nCpus cpuFreq timeBaseFreq periphFreq dtsPath timeStamp =
     (if \<not> nCpus \<ge> 1 then Inl AssertionError
      else
        let uartBase = uart_base devices;
            tmpStr = dts_header timeStamp timeBaseFreq;
            tmpStr = cpu_loop 0 nCpus cpuFreq tmpStr;
            tmpStr = tmpStr @ cpus_close
        in then_do (mem_loop devices tmpStr) (\<lambda>tmpStr.
             let numIrqs = irq_count_loop devices 0;
                 ioDeviceNr = 1
             in then_do (periph_loop nCpus periphFreq numIrqs devices (tmpStr, ioDeviceNr))
                  (\<lambda>(tmpStr, ioDeviceNr).
                     let tmpStr = tmpStr @ dts_footer
                     in if \<not> ioDeviceNr - 1 = numIrqs then Inl AssertionError
                        else Inr (dtsPath @ ''/rv64_platform.dts'', tmpStr))))"

subsection \<open>Python floats\<close>

text \<open>
  A Python float is an IEEE 754 binary64 number. Every finite one is a rational
  \<open>m * 2 ^ e\<close> with \<open>\<bar>m\<bar> < 2 ^ 53\<close> and \<open>- 1074 \<le> e\<close>, and the model of a float is
  its value in \<^typ>\<open>rat\<close>. Converting an integer and dividing return the value of
  this form that is nearest to the exact result, the one with the even \<open>m\<close> when
  two are equally near; that is \<open>round_double\<close>.
\<close>

definition pow2 :: "int \<Rightarrow> rat" where
  "pow2 e = (if 0 \<le> e then 2 ^ nat e else 1 / 2 ^ nat (- e))"

text \<open>\<open>ilog2 q\<close> is the \<open>k\<close> with \<open>2 ^ k \<le> q < 2 ^ (k + 1)\<close>, for \<open>q > 0\<close>.\<close>

definition ilog2 :: "rat \<Rightarrow> int" where
  "ilog2 q = (case quotient_of q of (a, b) \<Rightarrow>
                let k = bitlen a - bitlen b in if pow2 k \<le> q then k else k - 1)"

definition round_half_even :: "rat \<Rightarrow> int" where
  "round_half_even q =
     (let f = \<lfloor>q\<rfloor>; r = q - of_int f
      in if r < 1 / 2 then f else if 1 / 2 < r then f + 1 else if even f then f else f + 1)"

definition round_double :: "rat \<Rightarrow> rat" where
  "round_double q =
     (if q = 0 then 0
      else let e = max (ilog2 \<bar>q\<bar> - 52) (- 1074)
           in of_int (round_half_even (q / pow2 e)) * pow2 e)"

text \<open>
  \<^verbatim>\<open>a / b\<close> on two integers is the correctly rounded quotient, and
  \<^verbatim>\<open>float(n)\<close> the correctly rounded integer; both raise \<open>OverflowError\<close> when
  the result is beyond the largest float.
\<close>

definition py_int_truediv :: "int \<Rightarrow> int \<Rightarrow> error + rat" where
  "py_int_truediv a b =
     (if b = 0 then Inl ZeroDivisionError
      else let r = round_double (of_int a / of_int b)
           in if 2 ^ 1024 \<le> \<bar>r\<bar> then Inl OverflowError else Inr r)"

definition py_float_of_int :: "int \<Rightarrow> error + rat" where
  "py_float_of_int n =
     (let r = round_double (of_int n)
      in if 2 ^ 1024 \<le> \<bar>r\<bar> then Inl OverflowError else Inr r)"

text \<open>
  \<^verbatim>\<open>x / y\<close> on two floats. The script divides by \<open>1024\<close> and by \<open>1e6\<close> only,
  so the divisor is not zero and the quotient is no larger than \<open>x\<close>.
\<close>

definition py_float_truediv :: "rat \<Rightarrow> rat \<Rightarrow> rat" where
  "py_float_truediv x y = round_double (x / y)"

text \<open>\<^verbatim>\<open>int(x)\<close> on a float, also what \<open>%d\<close> does to a float: truncation.\<close>

definition py_int_of_float :: "rat \<Rightarrow> int" where
  "py_int_of_float x = (if 0 \<le> x then \<lfloor>x\<rfloor> else \<lceil>x\<rceil>)"

subsection \<open>\<open>int\<close> on a string, \<open>%s\<close> on bytes\<close>

text \<open>
  \<^verbatim>\<open>int(s)\<close> for a string of ASCII characters: the white space of C's
  \<open>isspace\<close> around the number is dropped (space, tab, line feed, vertical tab,
  form feed, carriage return), a sign may lead, single underscores may stand between
  digits, and more than 4300 digits are refused. \<open>None\<close> is the \<open>ValueError\<close>.
  A string with a character beyond ASCII is outside this model: Python would also
  take the white space and the decimal digits of Unicode there, the model answers
  \<open>None\<close>.
\<close>

definition is_space :: "char \<Rightarrow> bool" where
  "is_space c = (c \<in> set [CHR '' '', CHR 0x09, CHR 0x0A, CHR 0x0B, CHR 0x0C, CHR 0x0D])"

definition strip :: "string \<Rightarrow> string" where
  "strip s = rev (dropWhile is_space (rev (dropWhile is_space s)))"

definition is_digit :: "char \<Rightarrow> bool" where
  "is_digit c = (c \<in> set ''0123456789'')"

fun digits_from :: "bool \<Rightarrow> int \<Rightarrow> string \<Rightarrow> int option" where
  "digits_from need acc [] = (if need then None else Some acc)"
| "digits_from need acc (c # cs) =
     (if is_digit c then digits_from False (10 * acc + hex_digit_val c) cs
      else if c = CHR ''_'' \<and> \<not> need then digits_from True acc cs
      else None)"

definition max_str_digits :: int where
  "max_str_digits = 4300"

definition py_int :: "string \<Rightarrow> int option" where
  "py_int s =
     (if max_str_digits < int (length (filter is_digit (strip s))) then None
      else
        case strip s of
          [] \<Rightarrow> None
        | c # cs \<Rightarrow>
            if c = CHR ''-'' then map_option uminus (digits_from True 0 cs)
            else if c = CHR ''+'' then digits_from True 0 cs
            else digits_from True 0 (c # cs))"

text \<open>
  \<^verbatim>\<open>"%s" % b\<close> for a bytes object \<open>b\<close> is its \<open>repr\<close>: \<open>b'...'\<close>, in double
  quotes when the bytes hold a single quote and no double quote.
\<close>

definition bytes_quote :: "string \<Rightarrow> char" where
  "bytes_quote bs = (if CHR 0x27 \<in> set bs \<and> CHR 0x22 \<notin> set bs then CHR 0x22 else CHR 0x27)"

definition bytes_escape :: "char \<Rightarrow> char \<Rightarrow> string" where
  "bytes_escape q c =
     (if c = q \<or> c = CHR 0x5C then [CHR 0x5C, c]
      else if c = CHR 0x09 then [CHR 0x5C, CHR ''t'']
      else if c = CHR 0x0A then [CHR 0x5C, CHR ''n'']
      else if c = CHR 0x0D then [CHR 0x5C, CHR ''r'']
      else if (of_char c :: nat) < 0x20 \<or> (0x7F :: nat) \<le> of_char c
        then [CHR 0x5C, CHR ''x''] @ lpad (CHR ''0'') 2 (hex_digits (int (of_char c)))
      else [c])"

definition bytes_repr :: "string \<Rightarrow> string" where
  "bytes_repr bs = (let q = bytes_quote bs in ''b'' @ [q] @ concat (map (bytes_escape q) bs) @ [q])"

subsection \<open>\<open>get_bootrom_info\<close>\<close>

text \<open>
  What the function reads from outside: the environment \<^verbatim>\<open>os.environ\<close> and the
  output of the shell commands run by \<^verbatim>\<open>subprocess.check_output\<close>, a function of
  the command line.
\<close>

record world =
  environ :: "string \<Rightarrow> string option"
  check_output :: "string \<Rightarrow> error + string"

definition environ_get :: "world \<Rightarrow> string \<Rightarrow> error + string" where
  "environ_get w k = (case environ w k of None \<Rightarrow> Inl (KeyError k) | Some v \<Rightarrow> Inr v)"

text \<open>\<^verbatim>\<open>int(os.environ[k])\<close> and \<^verbatim>\<open>int(os.environ[k])/1024\<close>\<close>

definition environ_int :: "world \<Rightarrow> string \<Rightarrow> error + int" where
  "environ_int w k =
     then_do (environ_get w k) (\<lambda>s. case py_int s of None \<Rightarrow> Inl ValueError | Some n \<Rightarrow> Inr n)"

definition environ_kb :: "world \<Rightarrow> string \<Rightarrow> error + rat" where
  "environ_kb w k = then_do (environ_int w k) (\<lambda>n. py_int_truediv n 1024)"

definition gitver_cmd :: string where
  \<open>gitver_cmd = ''git log | grep commit -m1 | LD_LIBRARY_PATH= awk -e '' @ [CHR 0x27]
     @ ''{print $2;}'' @ [CHR 0x27]\<close>

text \<open>
  \<^verbatim>\<open>
  memLen  = 0
  for i in range(len(devices)):
      if devices[i]["name"] == "mem":
          memLen  = devices[i]["length"]
  \<close>
\<close>

fun mem_len_loop :: "device list \<Rightarrow> int \<Rightarrow> int" where
  "mem_len_loop [] memLen = memLen"
| "mem_len_loop (d # ds) memLen =
     mem_len_loop ds (if name d = ''mem'' then length_d d else memLen)"

definition board_name :: "world \<Rightarrow> string" where
  "board_name w =
     (case environ w ''PROTOSYN_RUNTIME_BOARD'' of
        Some boardName \<Rightarrow> if boardName = [] then ''None (Simulation)'' else boardName
      | None \<Rightarrow> ''None (Simulation)'')"

text \<open>
  \<^verbatim>\<open>
  if 'CONFIG_SYS_FREQ' in os.environ:
      sysFreq = os.environ['CONFIG_SYS_FREQ']
      sysFreq = "%d MHz" % int(float(int(sysFreq))/1e6)
  else:
      sysFreq = "Unknown"
  \<close>
\<close>

definition sys_freq :: "world \<Rightarrow> error + string" where
  "sys_freq w =
     (case environ w ''CONFIG_SYS_FREQ'' of
        Some sysFreq \<Rightarrow>
          (case py_int sysFreq of
             None \<Rightarrow> Inl ValueError
           | Some n \<Rightarrow>
               then_do (py_float_of_int n)
                 (\<lambda>x. Inr (fmt_d (py_int_of_float (py_float_truediv x 1000000)) @ '' MHz'')))
      | None \<Rightarrow> Inr ''Unknown'')"

text \<open>\<^verbatim>\<open>int(memLen/1024/1024)\<close>\<close>

definition dram_mb :: "int \<Rightarrow> error + int" where
  "dram_mb memLen =
     then_do (py_int_truediv memLen 1024) (\<lambda>x. Inr (py_int_of_float (py_float_truediv x 1024)))"

definition esc_crlf :: string where
  "esc_crlf = [CHR 0x5C, CHR ''r'', CHR 0x5C, CHR ''n'']"

text \<open>
  The template of the info string, as the list of its lines; \<open>\\r\\n\<close> in the
  source is a backslash, \<open>r\<close>, a backslash and \<open>n\<close> in the text. The four
  cache sizes are floats, which \<open>%3d\<close> truncates.
\<close>

definition info_text ::
  \<open>string \<Rightarrow> string \<Rightarrow> string \<Rightarrow> string \<Rightarrow> int \<Rightarrow> int \<Rightarrow> int \<Rightarrow> string \<Rightarrow> string \<Rightarrow> int
     \<Rightarrow> int \<Rightarrow> int \<Rightarrow> int \<Rightarrow> int \<Rightarrow> int \<Rightarrow> int \<Rightarrow> int \<Rightarrow> int \<Rightarrow> string\<close> where
  \<open>info_text timeStamp piton_ver ariane_ver boardName xTiles yTiles numTiles sysFreq network
       dramMB l1iKB l1iAssoc l1dKB l1dAssoc l15KB l15Assoc l2KB l2Assoc =
     concat
      [''// Info string generated with get_bootrom_info(...)\<newline>'',
       ''// OpenPiton + Ariane framework\<newline>'',
       ''// Date: '' @ timeStamp @ ''\<newline>'',
       ''\<newline>'',
       ''const char info[] = {\<newline>'',
       ''"'' @ esc_crlf @ esc_crlf @ ''"\<newline>'',
       ''"----------------------------------------'' @ esc_crlf @ ''"\<newline>'',
       ''"--     OpenPiton+Ariane Platform      --'' @ esc_crlf @ ''"\<newline>'',
       ''"----------------------------------------'' @ esc_crlf @ ''"\<newline>'',
       ''"OpenPiton Version: '' @ piton_ver @ ''                   '' @ esc_crlf @ ''"\<newline>'',
       ''"Ariane Version:    '' @ ariane_ver @ ''                   '' @ esc_crlf @ ''"\<newline>'',
       ''"                                        '' @ esc_crlf @ ''"\<newline>'',
       ''"FPGA Board:        '' @ boardName @ ''                   '' @ esc_crlf @ ''"\<newline>'',
       ''"Build Date:        '' @ timeStamp @ ''                   '' @ esc_crlf @ ''"\<newline>'',
       ''"                                        '' @ esc_crlf @ ''"\<newline>'',
       ''"#X-Tiles:          '' @ fmt_d xTiles @ ''                   '' @ esc_crlf @ ''"\<newline>'',
       ''"#Y-Tiles:          '' @ fmt_d yTiles @ ''                   '' @ esc_crlf @ ''"\<newline>'',
       ''"#Cores:            '' @ fmt_d numTiles @ ''                   '' @ esc_crlf @ ''"\<newline>'',
       ''"Core Freq:         '' @ sysFreq @ ''                   '' @ esc_crlf @ ''"\<newline>'',
       ''"Network:           '' @ network @ ''                   '' @ esc_crlf @ ''"\<newline>'',
       ''"DRAM Size:         '' @ fmt_d dramMB @ '' MB                '' @ esc_crlf @ ''"\<newline>'',
       ''"                                        '' @ esc_crlf @ ''"\<newline>'',
       ''"L1I Size / Assoc:  '' @ fmt_3d l1iKB @ '' kB / '' @ fmt_d l1iAssoc @ ''          '' @ esc_crlf @ ''"\<newline>'',
       ''"L1D Size / Assoc:  '' @ fmt_3d l1dKB @ '' kB / '' @ fmt_d l1dAssoc @ ''          '' @ esc_crlf @ ''"\<newline>'',
       ''"L15 Size / Assoc:  '' @ fmt_3d l15KB @ '' kB / '' @ fmt_d l15Assoc @ ''          '' @ esc_crlf @ ''"\<newline>'',
       ''"L2  Size / Assoc:  '' @ fmt_3d l2KB @ '' kB / '' @ fmt_d l2Assoc @ ''          '' @ esc_crlf @ ''"\<newline>'',
       ''"----------------------------------------'' @ esc_crlf @ esc_crlf @ esc_crlf @ ''"\<newline>'',
       ''};\<newline>'',
       ''\<newline>'']\<close>

definition get_bootrom_info ::
  "world \<Rightarrow> device list \<Rightarrow> int \<Rightarrow> int \<Rightarrow> int \<Rightarrow> int \<Rightarrow> string \<Rightarrow> string \<Rightarrow> error + string \<times> string" where
  "get_bootrom_info w devices nCpus cpuFreq timeBaseFreq periphFreq dtsPath timeStamp =
     then_do (check_output w gitver_cmd) (\<lambda>piton_ver.
     then_do (environ_get w ''ARIANE_ROOT'') (\<lambda>ariane_root.
     then_do (check_output w (''cd '' @ ariane_root @ '' && '' @ gitver_cmd)) (\<lambda>ariane_ver.
     let memLen = mem_len_loop devices 0;
         boardName = board_name w
     in
     then_do (sys_freq w) (\<lambda>sysFreq.
     then_do (environ_int w ''PITON_X_TILES'') (\<lambda>xTiles.
     then_do (environ_int w ''PITON_Y_TILES'') (\<lambda>yTiles.
     then_do (environ_int w ''PITON_NUM_TILES'') (\<lambda>numTiles.
     then_do (environ_get w ''PITON_NETWORK_CONFIG'') (\<lambda>network.
     then_do (dram_mb memLen) (\<lambda>dramMB.
     then_do (environ_kb w ''CONFIG_L1I_SIZE'') (\<lambda>l1iKB.
     then_do (environ_int w ''CONFIG_L1I_ASSOCIATIVITY'') (\<lambda>l1iAssoc.
     then_do (environ_kb w ''CONFIG_L1D_SIZE'') (\<lambda>l1dKB.
     then_do (environ_int w ''CONFIG_L1D_ASSOCIATIVITY'') (\<lambda>l1dAssoc.
     then_do (environ_kb w ''CONFIG_L15_SIZE'') (\<lambda>l15KB.
     then_do (environ_int w ''CONFIG_L15_ASSOCIATIVITY'') (\<lambda>l15Assoc.
     then_do (environ_kb w ''CONFIG_L2_SIZE'') (\<lambda>l2KB.
     then_do (environ_int w ''CONFIG_L2_ASSOCIATIVITY'') (\<lambda>l2Assoc.
       Inr (dtsPath @ ''/info.h'',
            info_text timeStamp (bytes_repr (take 8 piton_ver)) (bytes_repr (take 8 ariane_ver))
              boardName xTiles yTiles numTiles sysFreq network dramMB
              (py_int_of_float l1iKB) l1iAssoc (py_int_of_float l1dKB) l1dAssoc
              (py_int_of_float l15KB) l15Assoc (py_int_of_float l2KB) l2Assoc))))))))))))))))))"

subsection \<open>An example configuration\<close>

text \<open>
  An environment with every variable that \<open>get_bootrom_info\<close> requires, without a
  board name and without a system frequency, and a version command that prints a
  commit hash.
\<close>

definition example_world :: world where
  "example_world =
     \<lparr>environ = map_of
        [(''ARIANE_ROOT'', ''/work/ariane''),
         (''PITON_X_TILES'', ''2''),
         (''PITON_Y_TILES'', ''1''),
         (''PITON_NUM_TILES'', ''2''),
         (''PITON_NETWORK_CONFIG'', ''2dmesh_config''),
         (''CONFIG_L1I_SIZE'', ''16384''),
         (''CONFIG_L1I_ASSOCIATIVITY'', ''4''),
         (''CONFIG_L1D_SIZE'', ''8192''),
         (''CONFIG_L1D_ASSOCIATIVITY'', ''4''),
         (''CONFIG_L15_SIZE'', ''8192''),
         (''CONFIG_L15_ASSOCIATIVITY'', ''4''),
         (''CONFIG_L2_SIZE'', ''65536''),
         (''CONFIG_L2_ASSOCIATIVITY'', ''4'')],
      check_output = (\<lambda>cmd. Inr ''3f2a1b0c9d8e7f6a5b4c3d2e1f0a9b8c7d6e5f4a\<newline>'')\<rparr>"

subsection \<open>The document, section by section\<close>

text \<open>
  What the loops above add up to, written without accumulators. The properties
  below prove that \<open>gen_riscv_dts\<close> produces exactly these texts.
\<close>

definition reg_2_2 :: "int \<Rightarrow> int \<Rightarrow> string" where
  "reg_2_2 addrBase addrLen =
     '' '' @ ''0x'' @ fmt_08x (drop_bit 32 addrBase) @ '' ''
          @ ''0x'' @ fmt_08x (addrBase AND 0xFFFFFFFF) @ '' ''
          @ ''0x'' @ fmt_08x (drop_bit 32 addrLen) @ '' ''
          @ ''0x'' @ fmt_08x (addrLen AND 0xFFFFFFFF) @ '' ''"

definition mem_text :: "device \<Rightarrow> string" where
  "mem_text d = memory_node (base d) (reg_2_2 (base d) (length_d d))"

definition clint_text :: "int \<Rightarrow> device \<Rightarrow> string" where
  "clint_text nCpus d =
     clint_head (base d) @ concat (map clint_irq [0..nCpus - 1])
       @ clint_tail (reg_2_2 (base d) (length_d d))"

definition plic_text :: "int \<Rightarrow> int \<Rightarrow> device \<Rightarrow> string" where
  "plic_text nCpus numIrqs d =
     plic_head (base d) @ concat (map plic_irq [0..nCpus - 1])
       @ plic_tail (reg_2_2 (base d) (length_d d)) numIrqs"

definition uart_text :: "int \<Rightarrow> device \<Rightarrow> int \<Rightarrow> string" where
  "uart_text periphFreq d ioDeviceNr =
     uart_node (base d) (reg_2_2 (base d) (length_d d)) periphFreq ioDeviceNr"

definition sd_text :: "device \<Rightarrow> string" where
  "sd_text d = sd_node (base d) (reg_2_2 (base d) (length_d d))"

definition eth_text :: "device \<Rightarrow> int \<Rightarrow> string" where
  "eth_text d ioDeviceNr = eth_node (base d) (reg_2_2 (base d) (length_d d)) ioDeviceNr"

definition has_irq :: "device \<Rightarrow> bool" where
  "has_irq d = (name d = ''uart'' \<or> name d = ''net'')"

text \<open>
  The interrupt number of the device at position \<open>j\<close> of the inventory: one more
  than the number of \<open>uart\<close> and \<open>net\<close> devices in front of it.
\<close>

definition irq_index :: "device list \<Rightarrow> nat \<Rightarrow> int" where
  "irq_index devices j = 1 + int (length (filter has_irq (take j devices)))"

definition dev_text :: "int \<Rightarrow> int \<Rightarrow> int \<Rightarrow> device \<Rightarrow> int \<Rightarrow> string" where
  "dev_text nCpus periphFreq numIrqs d ioDeviceNr =
     (if name d = ''ariane_clint'' then clint_text nCpus d
      else if name d = ''ariane_plic'' then plic_text nCpus numIrqs d
      else if name d = ''uart'' then uart_text periphFreq d ioDeviceNr
      else if name d = ''sd'' then sd_text d
      else if name d = ''net'' then eth_text d ioDeviceNr
      else [])"

definition periph_text :: "int \<Rightarrow> int \<Rightarrow> int \<Rightarrow> device list \<Rightarrow> string" where
  "periph_text nCpus periphFreq numIrqs devices =
     concat (map (\<lambda>j. dev_text nCpus periphFreq numIrqs (devices ! j) (irq_index devices j))
                 [0..<length devices])"

subsection \<open>Counting the places where a text occurs\<close>

fun occurrences :: "string \<Rightarrow> string \<Rightarrow> nat" where
  "occurrences needle [] = (if needle = [] then 1 else 0)"
| "occurrences needle (c # cs) =
     (if prefix needle (c # cs) then 1 else 0) + occurrences needle cs"


section \<open>Properties\<close>

subsection \<open>Hexadecimal digits\<close>

lemma hex_char_val: "d < 16 \<Longrightarrow> hex_digit_val (hex_char d) = int d"
proof -
  have "\<forall>d\<in>{0..<16}. hex_digit_val (hex_char d) = int d" by code_simp
  then show "d < 16 \<Longrightarrow> hex_digit_val (hex_char d) = int d" by simp
qed

lemma hex_char_is_hex: "d < 16 \<Longrightarrow> is_hex_char (hex_char d)"
proof -
  have "\<forall>d\<in>{0..<16}. is_hex_char (hex_char d)" by code_simp
  then show "d < 16 \<Longrightarrow> is_hex_char (hex_char d)" by simp
qed

declare hex_digits.simps [simp del]

lemma hex_value_snoc: "hex_value (ds @ [c]) = 16 * hex_value ds + hex_digit_val c"
  by (simp add: hex_value_def)

lemma hex_value_digits: "0 \<le> n \<Longrightarrow> hex_value (hex_digits n) = n"
proof (induction n rule: hex_digits.induct)
  case (1 n)
  show ?case
  proof (cases "n < 16")
    case True
    then show ?thesis using 1(2) by (simp add: hex_digits.simps [of n] hex_value_def hex_char_val)
  next
    case False
    have "nat (n mod 16) < 16" by simp
    then have "hex_digit_val (hex_char (nat (n mod 16))) = n mod 16"
      by (simp add: hex_char_val)
    moreover have "hex_value (hex_digits (n div 16)) = n div 16"
      using 1(1) [OF False] 1(2) by simp
    ultimately show ?thesis using False
      by (simp add: hex_digits.simps [of n] hex_value_snoc)
  qed
qed

lemma hex_digits_all_hex: "list_all is_hex_char (hex_digits n)"
proof (induction n rule: hex_digits.induct)
  case (1 n)
  show ?case
  proof (cases "n < 16")
    case True
    then show ?thesis by (simp add: hex_digits.simps [of n] hex_char_is_hex)
  next
    case False
    then show ?thesis using 1
      by (simp add: hex_digits.simps [of n] hex_char_is_hex)
  qed
qed

lemma hex_digits_length: "0 < k \<Longrightarrow> n < 16 ^ k \<Longrightarrow> length (hex_digits n) \<le> k"
proof (induction n arbitrary: k rule: hex_digits.induct)
  case (1 n)
  show ?case
  proof (cases "n < 16")
    case True
    then show ?thesis using 1(2) by (simp add: hex_digits.simps [of n])
  next
    case False
    then obtain j where k: "k = Suc j" and j: "0 < j"
      using 1(2,3) by (cases k; cases "k - 1") auto
    define X :: int where "X = 16 ^ j"
    have "n < 16 * X" using 1(3) k by (simp add: X_def)
    then have "n div 16 < X" by arith
    then have "n div 16 < 16 ^ j" by (simp add: X_def)
    then have "length (hex_digits (n div 16)) \<le> j" using 1(1) [OF False j] by simp
    then show ?thesis using False k by (simp add: hex_digits.simps [of n])
  qed
qed

lemma hex_value_zeros: "hex_value (replicate k (CHR ''0'') @ ds) = hex_value ds"
proof -
  have "foldl (\<lambda>a c. 16 * a + hex_digit_val c) 0 (replicate k (CHR ''0'')) = 0"
    by (induction k) (simp_all add: hex_digit_val_def)
  then show ?thesis by (simp add: hex_value_def)
qed

subsection \<open>Cells of a reg entry\<close>

lemma fmt_08x_cell:
  assumes "0 \<le> v" "v < 2 ^ 32"
  shows "length (fmt_08x v) = 8" "list_all is_hex_char (fmt_08x v)" "hex_value (fmt_08x v) = v"
proof -
  have "v < 16 ^ 8" using assms(2) by simp
  then have len: "length (hex_digits v) \<le> 8" by (rule hex_digits_length [rotated]) simp
  show "length (fmt_08x v) = 8" using assms(1) len by (simp add: fmt_08x_def lpad_def)
  have "is_hex_char (CHR ''0'')" by (simp add: is_hex_char_def)
  then show "list_all is_hex_char (fmt_08x v)"
    using assms(1) hex_digits_all_hex [of v]
    by (auto simp: fmt_08x_def lpad_def list_all_iff)
  show "hex_value (fmt_08x v) = v"
    using assms(1) by (simp add: fmt_08x_def lpad_def hex_value_zeros hex_value_digits)
qed

lemma is_hex_char_not_space: "is_hex_char c \<Longrightarrow> c \<noteq> CHR '' ''"
  by (auto simp: is_hex_char_def)

lemma cell_token:
  assumes "0 \<le> v" "v < 2 ^ 32"
  shows "is_cell_token (''0x'' @ fmt_08x v) v" "CHR '' '' \<notin> set (''0x'' @ fmt_08x v)"
proof -
  show "is_cell_token (''0x'' @ fmt_08x v) v"
    using fmt_08x_cell [OF assms] by (simp add: is_cell_token_def)
  show "CHR '' '' \<notin> set (''0x'' @ fmt_08x v)"
    using fmt_08x_cell(2) [OF assms] is_hex_char_not_space
    by (auto simp: list_all_iff)
qed

lemma tokens_from_run:
  "CHR '' '' \<notin> set t \<Longrightarrow> cur @ t \<noteq> [] \<Longrightarrow>
   tokens_from cur (t @ CHR '' '' # rest) = (cur @ t) # tokens_from [] rest"
  by (induction t arbitrary: cur) auto

lemma tokens_cell:
  "CHR '' '' \<notin> set t \<Longrightarrow> t \<noteq> [] \<Longrightarrow>
   tokens_from [] (t @ CHR '' '' # rest) = t # tokens_from [] rest"
  using tokens_from_run [of t "[]" rest] by simp

lemma drop_bit_32_range:
  assumes "0 \<le> (b::int)" "b < 2 ^ 64"
  shows "0 \<le> b div 2 ^ 32" "b div 2 ^ 32 < 2 ^ 32" "drop_bit 32 b = b div 2 ^ 32"
proof -
  show "0 \<le> b div 2 ^ 32" using assms(1) by simp
  show "b div 2 ^ 32 < 2 ^ 32" using assms by simp
  show "drop_bit 32 b = b div 2 ^ 32" by (simp add: drop_bit_eq_div)
qed

lemma and_ffffffff: "(b::int) AND 0xFFFFFFFF = b mod 2 ^ 32"
proof -
  have "(0xFFFFFFFF::int) = mask 32" by (simp add: mask_eq_exp_minus_1)
  then show ?thesis by (simp only: flip: take_bit_eq_mask) (simp add: take_bit_eq_mod)
qed

subsection \<open>The loops of \<open>gen_riscv_dts\<close>\<close>

declare cpu_loop.simps [simp del] clint_loop.simps [simp del] plic_loop.simps [simp del]

lemma reg_fmt_2_2: "reg_fmt addrBase addrLen 2 2 = Inr (reg_2_2 addrBase addrLen)"
  by (simp add: reg_fmt_def reg_2_2_def)

lemma upto_step: "k < n \<Longrightarrow> [k..n - 1] = k # [k + 1..n - 1]"
  by (simp add: upto_rec1)

lemma cpu_loop_concat:
  "cpu_loop k nCpus cpuFreq tmpStr = tmpStr @ concat (map (\<lambda>k. cpu_node k cpuFreq) [k..nCpus - 1])"
proof (induction k nCpus cpuFreq tmpStr rule: cpu_loop.induct)
  case (1 k nCpus cpuFreq tmpStr)
  show ?case
  proof (cases "k < nCpus")
    case True
    then show ?thesis using 1 by (simp add: cpu_loop.simps [of k] upto_step)
  next
    case False
    then show ?thesis by (simp add: cpu_loop.simps [of k])
  qed
qed

lemma clint_loop_concat:
  "clint_loop k nCpus tmpStr = tmpStr @ concat (map clint_irq [k..nCpus - 1])"
proof (induction k nCpus tmpStr rule: clint_loop.induct)
  case (1 k nCpus tmpStr)
  show ?case
  proof (cases "k < nCpus")
    case True
    then show ?thesis using 1 by (simp add: clint_loop.simps [of k] upto_step)
  next
    case False
    then show ?thesis by (simp add: clint_loop.simps [of k])
  qed
qed

lemma plic_loop_concat:
  "plic_loop k nCpus tmpStr = tmpStr @ concat (map plic_irq [k..nCpus - 1])"
proof (induction k nCpus tmpStr rule: plic_loop.induct)
  case (1 k nCpus tmpStr)
  show ?case
  proof (cases "k < nCpus")
    case True
    then show ?thesis using 1 by (simp add: plic_loop.simps [of k] upto_step)
  next
    case False
    then show ?thesis by (simp add: plic_loop.simps [of k])
  qed
qed

lemma mem_loop_concat:
  "mem_loop ds tmpStr = Inr (tmpStr @ concat (map mem_text (filter (\<lambda>d. name d = ''mem'') ds)))"
  by (induction ds arbitrary: tmpStr) (simp_all add: reg_fmt_2_2 mem_text_def)

lemma irq_count_loop_filter:
  "irq_count_loop ds numIrqs = numIrqs + int (length (filter has_irq ds))"
  by (induction ds arbitrary: numIrqs) (auto simp: devWithIrq_def has_irq_def)

lemma uart_base_loop_absent:
  "\<forall>d\<in>set ds. name d \<noteq> ''uart'' \<Longrightarrow> uart_base_loop ds uartBase = uartBase"
  by (induction ds arbitrary: uartBase) simp_all

lemma on_clint_text:
  "on_clint nCpus d (tmpStr, ioDeviceNr) =
     Inr (tmpStr @ (if name d = ''ariane_clint'' then clint_text nCpus d else []), ioDeviceNr)"
  by (simp add: on_clint_def Let_def reg_fmt_2_2 clint_text_def clint_loop_concat)

lemma on_plic_text:
  "on_plic nCpus numIrqs d (tmpStr, ioDeviceNr) =
     Inr (tmpStr @ (if name d = ''ariane_plic'' then plic_text nCpus numIrqs d else []), ioDeviceNr)"
  by (simp add: on_plic_def Let_def reg_fmt_2_2 plic_text_def plic_loop_concat)

lemma on_uart_text:
  "on_uart periphFreq d (tmpStr, ioDeviceNr) =
     Inr (tmpStr @ (if name d = ''uart'' then uart_text periphFreq d ioDeviceNr else []),
          if name d = ''uart'' then ioDeviceNr + 1 else ioDeviceNr)"
  by (simp add: on_uart_def Let_def reg_fmt_2_2 uart_text_def)

lemma on_sd_text:
  "on_sd d (tmpStr, ioDeviceNr) =
     Inr (tmpStr @ (if name d = ''sd'' then sd_text d else []), ioDeviceNr)"
  by (simp add: on_sd_def Let_def reg_fmt_2_2 sd_text_def)

lemma on_net_text:
  "on_net d (tmpStr, ioDeviceNr) =
     Inr (tmpStr @ (if name d = ''net'' then eth_text d ioDeviceNr else []),
          if name d = ''net'' then ioDeviceNr + 1 else ioDeviceNr)"
  by (simp add: on_net_def Let_def reg_fmt_2_2 eth_text_def)

lemma then_do_Inr: "then_do (Inr x) f = f x"
  by (simp add: then_do_def)

lemma periph_body_text:
  "periph_body nCpus periphFreq numIrqs d (tmpStr, ioDeviceNr) =
     Inr (tmpStr @ dev_text nCpus periphFreq numIrqs d ioDeviceNr,
          if has_irq d then ioDeviceNr + 1 else ioDeviceNr)"
  unfolding periph_body_def on_clint_text then_do_Inr on_plic_text on_uart_text on_sd_text
    on_net_text
  by (simp add: dev_text_def has_irq_def)

lemma periph_loop_steps:
  "periph_loop nCpus periphFreq numIrqs ds (tmpStr, ioDeviceNr) =
     Inr (tmpStr @ concat (map (\<lambda>j. dev_text nCpus periphFreq numIrqs (ds ! j)
                                   (ioDeviceNr + int (length (filter has_irq (take j ds)))))
                               [0..<length ds]),
          ioDeviceNr + int (length (filter has_irq ds)))"
proof (induction ds arbitrary: tmpStr ioDeviceNr)
  case Nil
  show ?case by simp
next
  case (Cons d ds)
  have idx: "[0..<length (d # ds)] = 0 # map Suc [0..<length ds]"
    by (simp add: upt_conv_Cons map_Suc_upt del: upt_Suc)
  show ?case
    unfolding periph_loop.simps periph_body_text then_do_Inr Cons.IH idx
    by (simp add: o_def add.assoc)
qed

lemma periph_loop_text:
  "periph_loop nCpus periphFreq numIrqs ds (tmpStr, 1) =
     Inr (tmpStr @ periph_text nCpus periphFreq numIrqs ds, 1 + int (length (filter has_irq ds)))"
  by (simp add: periph_loop_steps periph_text_def irq_index_def)

lemma gen_riscv_dts_layout:
  assumes "1 \<le> nCpus"
  shows "gen_riscv_dts devices nCpus cpuFreq timeBaseFreq periphFreq dtsPath timeStamp =
     Inr (dtsPath @ ''/rv64_platform.dts'',
          dts_header timeStamp timeBaseFreq
          @ concat (map (\<lambda>k. cpu_node k cpuFreq) [0..nCpus - 1])
          @ cpus_close
          @ concat (map mem_text (filter (\<lambda>d. name d = ''mem'') devices))
          @ periph_text nCpus periphFreq (int (length (filter has_irq devices))) devices
          @ dts_footer)"
  using assms
  by (simp add: gen_riscv_dts_def Let_def cpu_loop_concat mem_loop_concat then_do_Inr
      irq_count_loop_filter periph_loop_text)

lemma fmt_08x_no_space: "CHR '' '' \<notin> set (fmt_08x v)"
proof -
  have "CHR '' '' \<notin> set (hex_digits n)" for n
    using hex_digits_all_hex [of n] is_hex_char_not_space by (auto simp: list_all_iff)
  then show ?thesis by (simp add: fmt_08x_def lpad_def)
qed


lemma fmt_d_small: "fmt_d 0 = ''0''" "fmt_d 1 = ''1''"
  by (simp_all add: fmt_d_def hex_char_def)

lemma periph_text_cong:
  assumes "\<And>j. j < length devices \<Longrightarrow>
             dev_text nCpus periphFreq numIrqs (devices ! j) (irq_index devices j) = f j"
  shows "periph_text nCpus periphFreq numIrqs devices = concat (map f [0..<length devices])"
  unfolding periph_text_def
  by (rule arg_cong [where f = concat], rule map_cong) (simp_all add: assms)

subsection \<open>Rounding to a float\<close>

lemma pow2_powi: "pow2 e = 2 powi e"
  by (simp add: pow2_def power_int_def inverse_eq_divide power_one_over)

lemma pow2_pos: "0 < pow2 e"
  by (simp add: pow2_powi)

lemma pow2_add: "pow2 (a + b) = pow2 a * pow2 b"
  by (simp add: pow2_powi power_int_add)

lemma pow2_mono: "a \<le> b \<Longrightarrow> pow2 a \<le> pow2 b"
  unfolding pow2_powi by (rule power_int_increasing) simp_all

lemma pow2_less_iff: "pow2 a < pow2 b \<longleftrightarrow> a < b"
proof
  assume "pow2 a < pow2 b"
  then show "a < b" using pow2_mono [of b a] by (cases "a < b") simp_all
next
  assume "a < b"
  then show "pow2 a < pow2 b" unfolding pow2_powi by (rule power_int_strict_increasing) simp
qed

lemma pow2_nat: "0 \<le> e \<Longrightarrow> pow2 e = of_int (2 ^ nat e)"
  by (simp add: pow2_def)

lemma of_int_bitlen_bounds:
  assumes "0 < a"
  shows "pow2 (bitlen a - 1) \<le> of_int a" "of_int a < pow2 (bitlen a)"
proof -
  have b: "1 \<le> bitlen a" using assms by (simp add: bitlen_alt_def)
  have "(2::int) ^ nat (bitlen a - 1) \<le> a" "a < 2 ^ nat (bitlen a)"
    using bitlen_bounds [OF assms] by simp_all
  then have "(of_int (2 ^ nat (bitlen a - 1)) :: rat) \<le> of_int a"
    "(of_int a :: rat) < of_int (2 ^ nat (bitlen a))"
    by (simp_all only: of_int_le_iff of_int_less_iff)
  then show "pow2 (bitlen a - 1) \<le> of_int a" "of_int a < pow2 (bitlen a)"
    using b by (simp_all add: pow2_nat)
qed

lemma ilog2_bounds:
  assumes "0 < q"
  shows "pow2 (ilog2 q) \<le> q" "q < pow2 (ilog2 q + 1)"
proof -
  obtain a b where ab: "quotient_of q = (a, b)" by (cases "quotient_of q")
  have b: "0 < b" using quotient_of_denom_pos [OF ab] .
  have q: "q = of_int a / of_int b" using quotient_of_div [OF ab] .
  have a: "0 < a" using assms b unfolding q by (simp add: zero_less_divide_iff)
  define k where "k = bitlen a - bitlen b"
  have i: "ilog2 q = (if pow2 k \<le> q then k else k - 1)"
    by (simp add: ilog2_def ab k_def Let_def)
  have B: "(0::rat) < of_int b" using b by simp
  have lo: "pow2 (k - 1) \<le> q"
  proof -
    have "pow2 (k - 1) * of_int b \<le> pow2 (k - 1) * pow2 (bitlen b)"
      using of_int_bitlen_bounds(2) [OF b] pow2_pos [of "k - 1"] by simp
    also have "\<dots> = pow2 (bitlen a - 1)"
      by (simp add: pow2_add [symmetric] k_def)
    also have "\<dots> \<le> of_int a" using of_int_bitlen_bounds(1) [OF a] .
    finally show ?thesis unfolding q using B by (simp add: pos_le_divide_eq)
  qed
  have hi: "q < pow2 (k + 1)"
  proof -
    have "of_int a < pow2 (bitlen a)" using of_int_bitlen_bounds(2) [OF a] .
    also have "\<dots> = pow2 (k + 1) * pow2 (bitlen b - 1)"
      by (simp add: pow2_add [symmetric] k_def)
    also have "\<dots> \<le> pow2 (k + 1) * of_int b"
      using of_int_bitlen_bounds(1) [OF b] pow2_pos [of "k + 1"] by simp
    finally show ?thesis unfolding q using B by (simp add: pos_divide_less_eq)
  qed
  show "pow2 (ilog2 q) \<le> q" using lo by (simp add: i)
  show "q < pow2 (ilog2 q + 1)" using hi by (simp add: i not_le)
qed

lemma ilog2_unique:
  assumes "pow2 k \<le> q" "q < pow2 (k + 1)"
  shows "ilog2 q = k"
proof -
  have q: "0 < q" using pow2_pos [of k] assms(1) by simp
  have "pow2 (ilog2 q) < pow2 (k + 1)" using ilog2_bounds(1) [OF q] assms(2) by simp
  moreover have "pow2 k < pow2 (ilog2 q + 1)" using ilog2_bounds(2) [OF q] assms(1) by simp
  ultimately show ?thesis by (simp add: pow2_less_iff)
qed

lemma round_half_even_of_int: "round_half_even (of_int z) = z"
  by (simp add: round_half_even_def)

lemma round_double_fixed:
  assumes "q = of_int m * pow2 e" and "\<bar>m\<bar> < 2 ^ 53" and "- 1074 \<le> e"
  shows "round_double q = q"
proof (cases "q = 0")
  case True
  then show ?thesis by (simp add: round_double_def)
next
  case False
  then have q: "0 < \<bar>q\<bar>" by simp
  define er where "er = max (ilog2 \<bar>q\<bar> - 52) (- 1074)"
  have "\<bar>q\<bar> = of_int \<bar>m\<bar> * pow2 e"
    using pow2_pos [of e] by (simp add: assms(1) abs_mult)
  also have "\<dots> < of_int (2 ^ 53) * pow2 e"
    using assms(2) pow2_pos [of e] by (simp only: mult_less_cancel_right of_int_less_iff) simp
  also have "\<dots> = pow2 (53 + e)" by (simp add: pow2_add pow2_nat)
  finally have "pow2 (ilog2 \<bar>q\<bar>) < pow2 (53 + e)" using ilog2_bounds(1) [OF q] by simp
  then have "ilog2 \<bar>q\<bar> < 53 + e" by (simp add: pow2_less_iff)
  then have le: "er \<le> e" using assms(3) by (simp add: er_def)
  have "q / pow2 er = of_int m * (pow2 (e - er) * pow2 er) / pow2 er"
    by (simp add: assms(1) pow2_add [symmetric])
  also have "\<dots> = of_int m * pow2 (e - er)" using pow2_pos [of er] by simp
  also have "\<dots> = of_int (m * 2 ^ nat (e - er))" using le by (simp add: pow2_nat)
  finally have s: "q / pow2 er = of_int (m * 2 ^ nat (e - er))" .
  have "round_double q = of_int (round_half_even (q / pow2 er)) * pow2 er"
    using False by (simp add: round_double_def er_def Let_def)
  also have "\<dots> = of_int (m * 2 ^ nat (e - er)) * pow2 er"
    by (simp only: s round_half_even_of_int)
  also have "\<dots> = q / pow2 er * pow2 er" by (simp only: s)
  also have "\<dots> = q" using pow2_pos [of er] by simp
  finally show ?thesis .
qed

lemma round_half_even_range:
  "\<lfloor>x\<rfloor> \<le> round_half_even x" "round_half_even x \<le> \<lfloor>x\<rfloor> + 1"
  by (simp_all add: round_half_even_def Let_def)

lemma ilog2_scale:
  assumes "0 < q"
  shows "ilog2 (q * pow2 j) = ilog2 q + j"
proof (rule ilog2_unique)
  show "pow2 (ilog2 q + j) \<le> q * pow2 j"
    using ilog2_bounds(1) [OF assms] pow2_pos [of j] by (simp add: pow2_add)
  have "q * pow2 j < pow2 (ilog2 q + 1) * pow2 j"
    using ilog2_bounds(2) [OF assms] pow2_pos [of j] by simp
  then show "q * pow2 j < pow2 (ilog2 q + j + 1)"
    by (simp add: pow2_add [symmetric] add.commute add.left_commute)
qed

lemma round_double_scale:
  assumes "q \<noteq> 0" and "- 1074 \<le> ilog2 \<bar>q\<bar> - 52" and "- 1074 \<le> ilog2 \<bar>q\<bar> + j - 52"
  shows "round_double (q * pow2 j) = round_double q * pow2 j"
proof -
  define e where "e = ilog2 \<bar>q\<bar> - 52"
  have q: "0 < \<bar>q\<bar>" using assms(1) by simp
  have a: "\<bar>q * pow2 j\<bar> = \<bar>q\<bar> * pow2 j" using pow2_pos [of j] by (simp add: abs_mult)
  have e2: "max (ilog2 \<bar>q * pow2 j\<bar> - 52) (- 1074) = e + j"
    using assms(3) by (simp add: a ilog2_scale [OF q] e_def)
  have e1: "max (ilog2 \<bar>q\<bar> - 52) (- 1074) = e"
    using assms(2) by (simp add: e_def)
  have d: "q * pow2 j / pow2 (e + j) = q / pow2 e"
    using pow2_pos [of j] by (simp add: pow2_add)
  have n: "q * pow2 j \<noteq> 0" using assms(1) pow2_pos [of j] by simp
  have "round_double (q * pow2 j) = of_int (round_half_even (q / pow2 e)) * pow2 (e + j)"
    using n by (simp add: round_double_def Let_def e2 d)
  also have "\<dots> = round_double q * pow2 j"
    using assms(1) by (simp add: round_double_def Let_def e1 pow2_add)
  finally show ?thesis .
qed

lemma ilog2_of_int_nonneg:
  assumes "1 \<le> n"
  shows "0 \<le> ilog2 (of_int n)"
proof (rule ccontr)
  assume "\<not> 0 \<le> ilog2 (of_int n)"
  then have "ilog2 (of_int n) + 1 \<le> 0" by simp
  then have "pow2 (ilog2 (of_int n) + 1) \<le> pow2 0" by (rule pow2_mono)
  moreover have "(of_int n :: rat) < pow2 (ilog2 (of_int n) + 1)"
    using assms by (intro ilog2_bounds(2)) simp
  ultimately have "(of_int n :: rat) < 1" by (simp add: pow2_def)
  then show False using assms by simp
qed

text \<open>The float of a positive integer: a mantissa of at most 53 bits and its exponent.\<close>

lemma round_double_of_int_repr:
  assumes "1 \<le> n"
  shows "\<exists>m e. round_double (of_int n) = of_int m * pow2 e \<and> 0 < m \<and> m < 2 ^ 53 \<and> - 52 \<le> e"
    and "round_double (of_int n) \<le> pow2 (ilog2 (of_int n) + 1)"
proof -
  define q :: rat where "q = of_int n"
  have q: "0 < q" using assms by (simp add: q_def)
  define e where "e = ilog2 q - 52"
  have e0: "- 52 \<le> e" using ilog2_of_int_nonneg [OF assms] by (simp add: e_def q_def)
  have e1: "max (ilog2 q - 52) (- 1074) = e" using e0 by (simp add: e_def)
  define x where "x = q / pow2 e"
  have "\<bar>q\<bar> = q" "q \<noteq> 0" using q by simp_all
  then have r: "round_double q = of_int (round_half_even x) * pow2 e"
    by (simp add: round_double_def Let_def e1 x_def)
  have "pow2 (ilog2 q) = pow2 52 * pow2 e" by (simp add: pow2_add [symmetric] e_def)
  then have lo: "pow2 52 \<le> x"
    using ilog2_bounds(1) [OF q] pow2_pos [of e] by (simp add: x_def pos_le_divide_eq)
  have p: "pow2 (ilog2 q + 1) = pow2 53 * pow2 e"
    by (simp add: pow2_add [symmetric] e_def add.commute)
  then have hi: "x < pow2 53"
    using ilog2_bounds(2) [OF q] pow2_pos [of e] by (simp add: x_def pos_divide_less_eq)
  have flo: "2 ^ 52 \<le> \<lfloor>x\<rfloor>" using lo by (simp add: pow2_def le_floor_iff)
  have fhi: "\<lfloor>x\<rfloor> < 2 ^ 53" using hi by (simp add: pow2_def floor_less_iff)
  define M where "M = round_half_even x"
  have M: "2 ^ 52 \<le> M" "M \<le> 2 ^ 53"
    using round_half_even_range [of x] flo fhi unfolding M_def by linarith+
  have R: "round_double (of_int n) = of_int M * pow2 e"
    using r by (simp add: M_def q_def)
  have "(of_int M :: rat) \<le> of_int (2 ^ 53)" using M(2) by (simp only: of_int_le_iff)
  then have "of_int M * pow2 e \<le> pow2 53 * pow2 e"
    using pow2_pos [of e] by (simp add: pow2_nat)
  then show "round_double (of_int n) \<le> pow2 (ilog2 (of_int n) + 1)"
    unfolding R using p by (simp add: q_def)
  show "\<exists>m e. round_double (of_int n) = of_int m * pow2 e \<and> 0 < m \<and> m < 2 ^ 53 \<and> - 52 \<le> e"
  proof (cases "M = 2 ^ 53")
    case True
    have "round_double (of_int n) = of_int 1 * pow2 (e + 53)"
      unfolding R True by (simp add: pow2_add pow2_nat)
    moreover have "(0::int) < 1 \<and> (1::int) < 2 ^ 53 \<and> - 52 \<le> e + 53" using e0 by simp
    ultimately show ?thesis by blast
  next
    case False
    then have "0 < M \<and> M < 2 ^ 53 \<and> - 52 \<le> e" using M e0 by simp
    then show ?thesis using R by blast
  qed
qed

subsection \<open>The memory size in megabytes\<close>

lemma round_double_of_int_exact:
  assumes "0 \<le> n" "n \<le> 2 ^ 53"
  shows "round_double (of_int n) = of_int n"
proof (cases "n = 2 ^ 53")
  case True
  show ?thesis
    by (rule round_double_fixed [where m = 1 and e = 53]) (simp_all add: True pow2_def)
next
  case False
  show ?thesis
    by (rule round_double_fixed [where m = n and e = 0]) (use assms False in \<open>simp_all add: pow2_def\<close>)
qed

lemma dram_mb_value:
  assumes "0 \<le> n" "n < 2 ^ 64"
  shows "dram_mb n = Inr \<lfloor>round_double (of_int n) / 2 ^ 20\<rfloor>"
proof (cases "n = 0")
  case True
  then show ?thesis
    by (simp add: dram_mb_def py_int_truediv_def py_float_truediv_def py_int_of_float_def
        round_double_def then_do_def)
next
  case False
  then have n: "1 \<le> n" using assms(1) by simp
  define q :: rat where "q = of_int n"
  define R where "R = round_double q"
  have q: "0 < q" "q \<noteq> 0" "\<bar>q\<bar> = q" using n by (simp_all add: q_def)
  have l0: "0 \<le> ilog2 q" using ilog2_of_int_nonneg [OF n] by (simp add: q_def)
  have "q < pow2 64" using assms(2) by (simp add: q_def pow2_def)
  then have "pow2 (ilog2 q) < pow2 64" using ilog2_bounds(1) [OF q(1)] by simp
  then have l1: "ilog2 q + 1 \<le> 64" by (simp add: pow2_less_iff)
  obtain m e where me: "R = of_int m * pow2 e" "0 < m" "m < 2 ^ 53" "- 52 \<le> e"
    using round_double_of_int_repr(1) [OF n] unfolding R_def q_def by blast
  have Rpos: "0 < R" using me(2) pow2_pos [of e] by (simp add: me(1))
  have "R \<le> pow2 (ilog2 q + 1)" using round_double_of_int_repr(2) [OF n] by (simp add: R_def q_def)
  also have "\<dots> \<le> pow2 64" using l1 by (rule pow2_mono)
  finally have Rhi: "R \<le> 2 ^ 64" by (simp add: pow2_def)
  have "round_double (q * pow2 (- 10)) = R * pow2 (- 10)"
    unfolding R_def using l0 by (intro round_double_scale) (simp_all add: q)
  then have A: "round_double (q / 1024) = R / 1024" by (simp add: pow2_def)
  have "\<bar>R / 1024\<bar> \<le> 2 ^ 64" using Rpos Rhi by simp
  then have ov: "\<not> 2 ^ 1024 \<le> \<bar>R / 1024\<bar>" by simp
  have 1: "py_int_truediv n 1024 = Inr (R / 1024)"
    using ov A by (simp add: py_int_truediv_def Let_def q_def [symmetric])
  have "R / 1024 / 1024 = of_int m * pow2 (e - 20)"
    by (simp add: me(1) pow2_add [of e "- 20", simplified] pow2_def [of "- 20"])
  then have "round_double (R / 1024 / 1024) = R / 1024 / 1024"
    using me(2,3,4) by (intro round_double_fixed [where m = m and e = "e - 20"]) simp_all
  then have 2: "py_float_truediv (R / 1024) 1024 = R / 2 ^ 20"
    by (simp add: py_float_truediv_def)
  have 3: "py_int_of_float (R / 2 ^ 20) = \<lfloor>R / 2 ^ 20\<rfloor>"
    using Rpos by (simp add: py_int_of_float_def)
  show ?thesis
    unfolding dram_mb_def 1 then_do_Inr 2 3 by (simp add: R_def q_def)
qed

lemma dram_mb_exact:
  assumes "0 \<le> n" "n \<le> 2 ^ 53"
  shows "dram_mb n = Inr (n div 2 ^ 20)"
proof -
  have "n < 2 ^ 64" using assms(2) by simp
  moreover have "\<lfloor>(of_int n :: rat) / 2 ^ 20\<rfloor> = n div 2 ^ 20"
    using floor_divide_of_int_eq [of n "2 ^ 20", where ?'a = rat] by simp
  ultimately show ?thesis
    using dram_mb_value [OF assms(1)] round_double_of_int_exact [OF assms] by simp
qed

subsection \<open>The info string\<close>

lemma sublist_concat_member: "x \<in> set xs \<Longrightarrow> sublist x (concat xs)"
proof -
  assume "x \<in> set xs"
  then obtain as bs where "xs = as @ x # bs" by (auto simp: in_set_conv_decomp)
  then have "concat xs = concat as @ x @ concat bs" by simp
  then show ?thesis unfolding sublist_def by blast
qed

lemma info_text_lines:
  "sublist (''\"FPGA Board:        '' @ boardName @ ''                   '' @ esc_crlf @ ''\"\<newline>'')
     (info_text timeStamp piton_ver ariane_ver boardName xTiles yTiles numTiles sysFreq network
        dramMB l1iKB l1iAssoc l1dKB l1dAssoc l15KB l15Assoc l2KB l2Assoc)"
  "sublist (''\"Core Freq:         '' @ sysFreq @ ''                   '' @ esc_crlf @ ''\"\<newline>'')
     (info_text timeStamp piton_ver ariane_ver boardName xTiles yTiles numTiles sysFreq network
        dramMB l1iKB l1iAssoc l1dKB l1dAssoc l15KB l15Assoc l2KB l2Assoc)"
  "sublist (''\"DRAM Size:         '' @ fmt_d dramMB @ '' MB                '' @ esc_crlf @ ''\"\<newline>'')
     (info_text timeStamp piton_ver ariane_ver boardName xTiles yTiles numTiles sysFreq network
        dramMB l1iKB l1iAssoc l1dKB l1dAssoc l15KB l15Assoc l2KB l2Assoc)"
  unfolding info_text_def by (rule sublist_concat_member, simp)+

lemma then_do_InrE:
  assumes "then_do r f = Inr y"
  obtains x where "r = Inr x" "f x = Inr y"
  using assms by (cases r) (simp_all add: then_do_def)

lemma get_bootrom_info_Inr:
  assumes "get_bootrom_info w devices nCpus cpuFreq timeBaseFreq periphFreq dtsPath timeStamp
             = Inr (path, banner)"
  obtains piton_ver ariane_ver xTiles yTiles numTiles sysFreq network dramMB
      l1iKB l1iAssoc l1dKB l1dAssoc l15KB l15Assoc l2KB l2Assoc
  where "sys_freq w = Inr sysFreq"
    and "dram_mb (mem_len_loop devices 0) = Inr dramMB"
    and "path = dtsPath @ ''/info.h''"
    and "banner = info_text timeStamp piton_ver ariane_ver (board_name w) xTiles yTiles numTiles
           sysFreq network dramMB l1iKB l1iAssoc l1dKB l1dAssoc l15KB l15Assoc l2KB l2Assoc"
  using assms unfolding get_bootrom_info_def Let_def
  by (elim then_do_InrE) auto

lemma mem_len_loop_last:
  "mem_len_loop devices memLen =
     (case filter (\<lambda>d. name d = ''mem'') devices of [] \<Rightarrow> memLen | m # ms \<Rightarrow> length_d (last (m # ms)))"
  by (induction devices arbitrary: memLen) (auto split: list.splits)

lemma example_info:
  "get_bootrom_info example_world [\<lparr>name = ''mem'', base = 0x80000000, length_d = 0x20000000\<rparr>]
      2 50000000 390625 50000000 ''/tmp'' ''Jan 01 2024 00:00:00''
   = Inr (''/tmp/info.h'',
          info_text ''Jan 01 2024 00:00:00'' (''b'' @ [CHR 0x27] @ ''3f2a1b0c'' @ [CHR 0x27])
            (''b'' @ [CHR 0x27] @ ''3f2a1b0c'' @ [CHR 0x27]) ''None (Simulation)'' 2 1 2 ''Unknown''
            ''2dmesh_config'' 512 16 4 8 4 8 4 64 4)"
  by code_simp

subsection \<open>Where a text occurs in the document\<close>

lemma occurrences_skip:
  "h \<notin> set v \<Longrightarrow> occurrences (h # t) (v @ rest) = occurrences (h # t) rest"
  by (induction v) auto

lemma occurrences_skip2:
  "c2 \<notin> set v \<Longrightarrow> d \<noteq> c2 \<Longrightarrow>
   occurrences (c1 # c2 # t) (v @ d # rest) = occurrences (c1 # c2 # t) (d # rest)"
proof (induction v)
  case Nil
  show ?case by simp
next
  case (Cons e v)
  then have "\<not> prefix (c2 # t) (v @ d # rest)" by (cases v) auto
  then show ?case using Cons by simp
qed

lemma prefix_before:
  assumes "d \<notin> set t"
  shows "prefix t (v @ d # rest) \<longleftrightarrow> prefix t v"
proof
  assume "prefix t (v @ d # rest)"
  then consider "prefix t v" | us where "t = v @ us" "prefix us (d # rest)"
    by (auto simp: prefix_append)
  then show "prefix t v"
  proof cases
    case 1
    then show ?thesis .
  next
    case 2
    then show ?thesis using assms by (cases us) auto
  qed
next
  assume "prefix t v"
  then show "prefix t (v @ d # rest)" by (rule prefix_prefix)
qed

lemma occurrences_input:
  "d \<notin> set t \<Longrightarrow>
   occurrences (h # t) (v @ d # rest) = occurrences (h # t) v + occurrences (h # t) (d # rest)"
  by (induction v) (simp_all add: prefix_before)

lemma occurrences_concat:
  assumes "\<And>x r. x \<in> set xs \<Longrightarrow> occurrences n (f x @ r) = g x + occurrences n r"
  shows "occurrences n (concat (map f xs) @ r) = sum_list (map g xs) + occurrences n r"
  using assms by (induction xs) simp_all

lemma hex_digits_chars: "c \<in> set (hex_digits n) \<Longrightarrow> is_hex_char c"
  using hex_digits_all_hex [of n] by (simp add: list_all_iff)

lemma fmt_08x_chars: "\<not> is_hex_char c \<Longrightarrow> c \<noteq> CHR ''-'' \<Longrightarrow> c \<notin> set (fmt_08x v)"
proof
  assume c: "\<not> is_hex_char c" "c \<noteq> CHR ''-''" and "c \<in> set (fmt_08x v)"
  then consider "c = CHR ''0''" | "c \<in> set (hex_digits v)" | "c \<in> set (hex_digits (- v))"
    by (auto simp: fmt_08x_def lpad_def split: if_splits)
  then show False
  proof cases
    case 1
    then show ?thesis using c(1) by (simp add: is_hex_char_def)
  next
    case 2
    then show ?thesis using c(1) hex_digits_chars by blast
  next
    case 3
    then show ?thesis using c(1) hex_digits_chars by blast
  qed
qed

lemma hex_char_dec: "d < 10 \<Longrightarrow> is_digit (hex_char d)"
proof -
  have "\<forall>d\<in>{0..<10}. is_digit (hex_char d)" by code_simp
  then show "d < 10 \<Longrightarrow> is_digit (hex_char d)" by simp
qed

declare dec_digits.simps [simp del]

lemma dec_digits_chars: "list_all is_digit (dec_digits n)"
proof (induction n rule: dec_digits.induct)
  case (1 n)
  show ?case
  proof (cases "n < 10")
    case True
    then have "nat n < 10" by simp
    then show ?thesis using True hex_char_dec [of "nat n"] by (simp add: dec_digits.simps [of n])
  next
    case False
    have "nat (n mod 10) < 10" by simp
    then have "is_digit (hex_char (nat (n mod 10)))" by (rule hex_char_dec)
    then show ?thesis using False 1 by (simp add: dec_digits.simps [of n])
  qed
qed

lemma fmt_d_chars: "\<not> is_digit c \<Longrightarrow> c \<noteq> CHR ''-'' \<Longrightarrow> c \<notin> set (fmt_d k)"
  using dec_digits_chars [of k] dec_digits_chars [of "- k"]
  by (auto simp: fmt_d_def list_all_iff)

lemma reg_2_2_chars:
  "\<not> is_hex_char c \<Longrightarrow> c \<noteq> CHR ''-'' \<Longrightarrow> c \<noteq> CHR '' '' \<Longrightarrow> c \<noteq> CHR ''x'' \<Longrightarrow> c \<notin> set (reg_2_2 b l)"
  using fmt_08x_chars [of c] by (simp add: reg_2_2_def is_hex_char_def)

lemmas occ_rules = occurrences_skip occurrences_skip2 fmt_08x_chars fmt_d_chars reg_2_2_chars
  is_hex_char_def is_digit_def

lemma uart_in_cpu_node: "occurrences ''uart@'' (cpu_node k f @ r) = occurrences ''uart@'' r"
  by (simp add: cpu_node_def occ_rules)


lemma uart_in_mem_text: "occurrences ''uart@'' (mem_text d @ r) = occurrences ''uart@'' r"
  by (simp add: mem_text_def memory_node_def occ_rules)


lemma uart_in_clint_irq: "occurrences ''uart@'' (clint_irq k @ r) = occurrences ''uart@'' r"
  by (simp add: clint_irq_def occ_rules)


lemma uart_in_plic_irq: "occurrences ''uart@'' (plic_irq k @ r) = occurrences ''uart@'' r"
  by (simp add: plic_irq_def occ_rules)


lemma occurrences_concat_0:
  assumes "\<And>x r. occurrences n (f x @ r) = occurrences n r"
  shows "occurrences n (concat (map f xs) @ r) = occurrences n r"
  using assms by (induction xs) simp_all

lemma uart_in_clint_text: "occurrences ''uart@'' (clint_text nCpus d @ r) = occurrences ''uart@'' r"
proof -
  have "occurrences ''uart@'' (concat (map clint_irq ks) @ r') = occurrences ''uart@'' r'" for ks r'
    by (rule occurrences_concat_0) (rule uart_in_clint_irq)
  then show ?thesis
    by (simp add: clint_text_def clint_head_def clint_tail_def occ_rules)
qed


lemma uart_in_plic_text:
  "occurrences ''uart@'' (plic_text nCpus numIrqs d @ r) = occurrences ''uart@'' r"
proof -
  have "occurrences ''uart@'' (concat (map plic_irq ks) @ r') = occurrences ''uart@'' r'" for ks r'
    by (rule occurrences_concat_0) (rule uart_in_plic_irq)
  then show ?thesis
    by (simp add: plic_text_def plic_head_def plic_tail_def occ_rules)
qed


lemma uart_in_uart_text:
  "occurrences ''uart@'' (uart_text periphFreq d i @ r) = 1 + occurrences ''uart@'' r"
  by (simp add: uart_text_def uart_node_def occ_rules)


lemma uart_in_sd_text: "occurrences ''uart@'' (sd_text d @ r) = occurrences ''uart@'' r"
  by (simp add: sd_text_def sd_node_def occ_rules)


lemma uart_in_eth_text: "occurrences ''uart@'' (eth_text d i @ r) = occurrences ''uart@'' r"
  by (simp add: eth_text_def eth_node_def occ_rules)


lemma uart_in_dev_text:
  "occurrences ''uart@'' (dev_text nCpus periphFreq numIrqs d i @ r)
     = (if name d = ''uart'' then 1 else 0) + occurrences ''uart@'' r"
  by (simp add: dev_text_def uart_in_clint_text uart_in_plic_text uart_in_uart_text
      uart_in_sd_text uart_in_eth_text)


lemma sum_list_indicator:
  "sum_list (map (\<lambda>j. if P (ds ! j) then 1 else 0) [0..<length ds]) = length (filter P ds)"
proof -
  have "map (\<lambda>j. if P (ds ! j) then 1 else (0::nat)) [0..<length ds]
          = map (\<lambda>d. if P d then 1 else 0) ds"
    by (rule nth_equalityI) simp_all
  moreover have "sum_list (map (\<lambda>d. if P d then 1 else (0::nat)) xs) = length (filter P xs)" for xs
    by (induction xs) simp_all
  ultimately show ?thesis by simp
qed

lemma uart_in_periph_text:
  "occurrences ''uart@'' (periph_text nCpus periphFreq numIrqs devices @ r)
     = length (filter (\<lambda>d. name d = ''uart'') devices) + occurrences ''uart@'' r"
proof -
  have "occurrences ''uart@'' (periph_text nCpus periphFreq numIrqs devices @ r)
          = sum_list (map (\<lambda>j. if name (devices ! j) = ''uart'' then 1 else 0) [0..<length devices])
            + occurrences ''uart@'' r"
    unfolding periph_text_def by (rule occurrences_concat) (rule uart_in_dev_text)
  then show ?thesis
    using sum_list_indicator [of "\<lambda>d. name d = ''uart''" devices] by simp
qed


lemma uart_in_header:
  "occurrences ''uart@'' (dts_header timeStamp timeBaseFreq @ r)
     = occurrences ''uart@'' timeStamp + occurrences ''uart@'' r"
  by (simp add: dts_header_def occ_rules occurrences_input [where v = timeStamp])


lemma uart_in_document:
  assumes "1 \<le> nCpus"
  shows "\<exists>doc. gen_riscv_dts devices nCpus cpuFreq timeBaseFreq periphFreq dtsPath timeStamp
                 = Inr (dtsPath @ ''/rv64_platform.dts'', doc)
               \<and> occurrences ''uart@'' doc
                   = length (filter (\<lambda>d. name d = ''uart'') devices)
                     + occurrences ''uart@'' timeStamp"
proof -
  have cpus: "occurrences ''uart@'' (concat (map (\<lambda>k. cpu_node k cpuFreq) ks) @ r)
                = occurrences ''uart@'' r" for ks r
    by (rule occurrences_concat_0) (rule uart_in_cpu_node)
  have mems: "occurrences ''uart@'' (concat (map mem_text ms) @ r) = occurrences ''uart@'' r" for ms r
    by (rule occurrences_concat_0) (rule uart_in_mem_text)
  have close: "occurrences ''uart@'' (cpus_close @ r) = occurrences ''uart@'' r" for r
    by (simp add: cpus_close_def)
  have foot: "occurrences ''uart@'' dts_footer = 0"
    by (simp add: dts_footer_def)
  show ?thesis
    unfolding gen_riscv_dts_layout [OF assms]
    by (simp add: uart_in_header cpus close mems uart_in_periph_text foot)
qed




lemma dec_digits_not_Nil: "dec_digits n \<noteq> []"
  by (simp add: dec_digits.simps [of n])









section \<open>The register field encoder\<close>

text \<open>
  C2. For address and size cell counts in \<open>{0, 1, 2}\<close> and a base and a length
  below \<open>2 ^ 64\<close>, \<open>_reg_fmt\<close> returns a string with exactly
  \<open>addrCells + sizeCells\<close> tokens. Each token is \<open>0x\<close> followed by exactly
  eight hexadecimal digits, and the tokens are, in this order: the upper 32 bits of the
  base (two address cells only), the lower 32 bits of the base (at least one address
  cell), the upper 32 bits of the length (two size cells only), the lower 32 bits of
  the length (at least one size cell).
\<close>

theorem reg_fmt_cells:
  assumes "addrCells \<in> {0, 1, 2}" and "sizeCells \<in> {0, 1, 2}"
    and "0 \<le> addrBase" and "addrBase < 2 ^ 64" and "0 \<le> addrLen" and "addrLen < 2 ^ 64"
  shows "\<exists>s. reg_fmt addrBase addrLen addrCells sizeCells = Inr s
           \<and> length (tokens s) = nat (addrCells + sizeCells)
           \<and> list_all2 is_cell_token (tokens s)
                 ((if addrCells = 2 then [addrBase div 2 ^ 32] else []) @
                  (if addrCells \<ge> 1 then [addrBase mod 2 ^ 32] else []) @
                  (if sizeCells = 2 then [addrLen div 2 ^ 32] else []) @
                  (if sizeCells \<ge> 1 then [addrLen mod 2 ^ 32] else []))"
proof -
  define bh where "bh = ''0x'' @ fmt_08x (drop_bit 32 addrBase)"
  define bl where "bl = ''0x'' @ fmt_08x (addrBase AND 0xFFFFFFFF)"
  define lh where "lh = ''0x'' @ fmt_08x (drop_bit 32 addrLen)"
  define ll where "ll = ''0x'' @ fmt_08x (addrLen AND 0xFFFFFFFF)"
  have bh: "is_cell_token bh (addrBase div 2 ^ 32)" "CHR '' '' \<notin> set bh" "bh \<noteq> []"
    using cell_token [OF drop_bit_32_range(1,2) [OF assms(3,4)]]
    unfolding bh_def drop_bit_32_range(3) [OF assms(3,4)] by simp_all
  have lh: "is_cell_token lh (addrLen div 2 ^ 32)" "CHR '' '' \<notin> set lh" "lh \<noteq> []"
    using cell_token [OF drop_bit_32_range(1,2) [OF assms(5,6)]]
    unfolding lh_def drop_bit_32_range(3) [OF assms(5,6)] by simp_all
  have bl: "is_cell_token bl (addrBase mod 2 ^ 32)" "CHR '' '' \<notin> set bl" "bl \<noteq> []"
    using cell_token [of "addrBase mod 2 ^ 32"]
    by (simp_all add: bl_def and_ffffffff)
  have ll: "is_cell_token ll (addrLen mod 2 ^ 32)" "CHR '' '' \<notin> set ll" "ll \<noteq> []"
    using cell_token [of "addrLen mod 2 ^ 32"]
    by (simp_all add: ll_def and_ffffffff)
  note tk = tokens_cell [OF bh(2,3)] tokens_cell [OF bl(2,3)] tokens_cell [OF lh(2,3)]
    tokens_cell [OF ll(2,3)]
  define s where "s = '' '' @ (if addrCells \<ge> 2 then bh @ '' '' else [])
         @ (if addrCells \<ge> 1 then bl @ '' '' else [])
         @ (if sizeCells \<ge> 2 then lh @ '' '' else [])
         @ (if sizeCells \<ge> 1 then ll @ '' '' else [])"
  define ts where "ts = (if addrCells \<ge> 2 then [bh] else []) @ (if addrCells \<ge> 1 then [bl] else [])
         @ (if sizeCells \<ge> 2 then [lh] else []) @ (if sizeCells \<ge> 1 then [ll] else [])"
  have r: "reg_fmt addrBase addrLen addrCells sizeCells = Inr s"
    by (simp add: reg_fmt_def Let_def bh_def bl_def lh_def ll_def s_def)
  have t: "tokens s = ts"
    by (simp add: tokens_def tk s_def ts_def)
  have len: "length ts = nat (addrCells + sizeCells)"
    using assms(1,2) by (auto simp: ts_def)
  have vals: "list_all2 is_cell_token ts
                 ((if addrCells = 2 then [addrBase div 2 ^ 32] else []) @
                  (if addrCells \<ge> 1 then [addrBase mod 2 ^ 32] else []) @
                  (if sizeCells = 2 then [addrLen div 2 ^ 32] else []) @
                  (if sizeCells \<ge> 1 then [addrLen mod 2 ^ 32] else []))"
    using assms(1,2) bh(1) bl(1) lh(1) ll(1) by (auto simp: ts_def)
  show ?thesis
    using r t len vals by simp
qed

theorem reg_fmt_cells_witness:
  "\<exists>s. reg_fmt 0x80000000 0x10000000 2 2 = Inr s \<and> length (tokens s) = 4
        \<and> list_all2 is_cell_token (tokens s) [0, 0x80000000, 0, 0x10000000]"
  using reg_fmt_cells [of 2 2 "0x80000000" "0x10000000"] by simp

text \<open>
  C3, as the code has it. The string is one space followed by every cell value, each
  value followed by one space: the values are separated by single spaces, a space
  leads, and a space also trails the last value. No cell value contains a space. For
  base \<open>0x80000000\<close> and length \<open>0x10000000\<close> with two cells each the result
  is \<open>" 0x00000000 0x80000000 0x00000000 0x10000000 "\<close>.
\<close>

theorem reg_fmt_layout:
  "reg_fmt addrBase addrLen addrCells sizeCells =
     Inr ('' '' @ concat (map (\<lambda>v. ''0x'' @ fmt_08x v @ '' '')
            ((if addrCells \<ge> 2 then [drop_bit 32 addrBase] else []) @
             (if addrCells \<ge> 1 then [addrBase AND 0xFFFFFFFF] else []) @
             (if sizeCells \<ge> 2 then [drop_bit 32 addrLen] else []) @
             (if sizeCells \<ge> 1 then [addrLen AND 0xFFFFFFFF] else []))))
   \<and> CHR '' '' \<notin> set (fmt_08x v)"
  by (simp add: reg_fmt_def Let_def fmt_08x_no_space)

theorem reg_fmt_layout_witness:
  "reg_fmt 0x0000000080000000 0x0000000010000000 2 2
     = Inr '' 0x00000000 0x80000000 0x00000000 0x10000000 ''"
  by (simp only: reg_fmt_layout) code_simp

text \<open>
  C3, as stated, asks for the same string without the space at the end; the code
  does not return it.
\<close>

theorem reg_fmt_no_trailing_counterexample:
  "reg_fmt 0x0000000080000000 0x0000000010000000 2 2
     \<noteq> Inr '' 0x00000000 0x80000000 0x00000000 0x10000000''"
  by code_simp

text \<open>
  C6. The two assertions of \<open>_reg_fmt\<close> are disjunctions that every integer
  satisfies, so a cell count outside \<open>{0, 1, 2}\<close> is not rejected: with three
  address cells and \<open>-1\<close> size cells a string is returned.
\<close>

theorem reg_fmt_bad_cells:
  "reg_fmt 0 0 3 (- 1) = Inr '' 0x00000000 0x00000000 ''"
  by code_simp

section \<open>The device tree\<close>

text \<open>
  C1. For every inventory and at least one core, the number of devices named
  \<open>uart\<close> or \<open>net\<close> that the counting loop finds is the number of interrupt
  numbers handed out by the loop over the peripherals, so the final assertion holds
  and \<open>gen_riscv_dts\<close> returns a document.
\<close>

theorem irq_count_matches_assigned:
  assumes "1 \<le> nCpus"
  shows "irq_count_loop devices 0
           = int (length (filter (\<lambda>d. name d = ''uart'' \<or> name d = ''net'') devices))
         \<and> (\<exists>tmpStr' ioDeviceNr.
               periph_loop nCpus periphFreq (irq_count_loop devices 0) devices (tmpStr, 1)
                 = Inr (tmpStr', ioDeviceNr)
               \<and> ioDeviceNr - 1 = irq_count_loop devices 0)
         \<and> (\<exists>out. gen_riscv_dts devices nCpus cpuFreq timeBaseFreq periphFreq dtsPath timeStamp
                 = Inr out)"
proof -
  have "filter has_irq devices = filter (\<lambda>d. name d = ''uart'' \<or> name d = ''net'') devices"
    by (rule filter_cong) (simp_all add: has_irq_def)
  then show ?thesis
    using gen_riscv_dts_layout [OF assms]
    by (simp add: irq_count_loop_filter periph_loop_text)
qed

theorem irq_count_matches_assigned_witness:
  "irq_count_loop [\<lparr>name = ''uart'', base = 0x10000, length_d = 0x1000\<rparr>,
                   \<lparr>name = ''sd'', base = 0x30000, length_d = 0x1000\<rparr>,
                   \<lparr>name = ''net'', base = 0x40000, length_d = 0x1000\<rparr>] 0 = 2
   \<and> (\<exists>tmpStr' ioDeviceNr.
         periph_loop 2 50000000 2
           [\<lparr>name = ''uart'', base = 0x10000, length_d = 0x1000\<rparr>,
            \<lparr>name = ''sd'', base = 0x30000, length_d = 0x1000\<rparr>,
            \<lparr>name = ''net'', base = 0x40000, length_d = 0x1000\<rparr>] ([], 1)
           = Inr (tmpStr', ioDeviceNr) \<and> ioDeviceNr - 1 = 2)
   \<and> (\<exists>out. gen_riscv_dts
           [\<lparr>name = ''uart'', base = 0x10000, length_d = 0x1000\<rparr>,
            \<lparr>name = ''sd'', base = 0x30000, length_d = 0x1000\<rparr>,
            \<lparr>name = ''net'', base = 0x40000, length_d = 0x1000\<rparr>]
           2 50000000 390625 50000000 ''/tmp'' ''Jan 01 2024 00:00:00'' = Inr out)"
  using irq_count_matches_assigned [of 2
      "[\<lparr>name = ''uart'', base = 0x10000, length_d = 0x1000\<rparr>,
        \<lparr>name = ''sd'', base = 0x30000, length_d = 0x1000\<rparr>,
        \<lparr>name = ''net'', base = 0x40000, length_d = 0x1000\<rparr>]"
      50000000 "[]" 50000000 390625 "''/tmp''" "''Jan 01 2024 00:00:00''"]
  by (simp add: devWithIrq_def)






text \<open>
  C7, as the code has it. Without a device named \<open>uart\<close> the UART base that is
  recorded is the sentinel \<open>0xDEADBEEF\<close>, and nothing reads it afterwards. The
  document is made of the header, the CPU nodes, the memory nodes and the nodes of
  the \<open>ariane_clint\<close>, \<open>ariane_plic\<close>, \<open>sd\<close> and \<open>net\<close> devices, each
  built from the base and the length of its own device: no UART node is emitted, and
  the text \<open>uart@\<close>, which opens the name of a UART node, occurs in the document
  only where the time stamp of the caller contains it.
\<close>

theorem uart_sentinel_recorded_not_emitted:
  assumes "1 \<le> nCpus" and "\<forall>d\<in>set devices. name d \<noteq> ''uart''"
  shows "uart_base devices = 0xDEADBEEF
         \<and> (\<exists>doc. gen_riscv_dts devices nCpus cpuFreq timeBaseFreq periphFreq dtsPath timeStamp
                     = Inr (dtsPath @ ''/rv64_platform.dts'', doc)
               \<and> occurrences ''uart@'' doc = occurrences ''uart@'' timeStamp
               \<and> doc = dts_header timeStamp timeBaseFreq
                        @ concat (map (\<lambda>k. cpu_node k cpuFreq) [0..nCpus - 1])
                        @ cpus_close
                        @ concat (map mem_text (filter (\<lambda>d. name d = ''mem'') devices))
                        @ concat (map (\<lambda>j.
                             if name (devices ! j) = ''ariane_clint''
                               then clint_text nCpus (devices ! j)
                             else if name (devices ! j) = ''ariane_plic''
                               then plic_text nCpus (irq_count_loop devices 0) (devices ! j)
                             else if name (devices ! j) = ''sd'' then sd_text (devices ! j)
                             else if name (devices ! j) = ''net''
                               then eth_text (devices ! j) (irq_index devices j)
                             else []) [0..<length devices])
                        @ dts_footer)"
proof -
  have p: "periph_text nCpus periphFreq (irq_count_loop devices 0) devices =
        concat (map (\<lambda>j.
                     if name (devices ! j) = ''ariane_clint'' then clint_text nCpus (devices ! j)
                     else if name (devices ! j) = ''ariane_plic''
                       then plic_text nCpus (irq_count_loop devices 0) (devices ! j)
                     else if name (devices ! j) = ''sd'' then sd_text (devices ! j)
                     else if name (devices ! j) = ''net''
                       then eth_text (devices ! j) (irq_index devices j)
                     else []) [0..<length devices])"
    by (rule periph_text_cong) (use assms(2) in \<open>simp add: dev_text_def\<close>)
  have f: "filter (\<lambda>d. name d = ''uart'') devices = []"
    using assms(2) by (simp add: filter_empty_conv)
  have b: "uart_base devices = 0xDEADBEEF"
    unfolding uart_base_def using uart_base_loop_absent [OF assms(2)] by simp
  from uart_in_document [OF assms(1), of devices cpuFreq timeBaseFreq periphFreq dtsPath timeStamp]
  obtain doc
    where g: "gen_riscv_dts devices nCpus cpuFreq timeBaseFreq periphFreq dtsPath timeStamp
                = Inr (dtsPath @ ''/rv64_platform.dts'', doc)"
      and o: "occurrences ''uart@'' doc = occurrences ''uart@'' timeStamp"
    unfolding f by auto
  have e: "doc = dts_header timeStamp timeBaseFreq
                  @ concat (map (\<lambda>k. cpu_node k cpuFreq) [0..nCpus - 1])
                  @ cpus_close
                  @ concat (map mem_text (filter (\<lambda>d. name d = ''mem'') devices))
                  @ periph_text nCpus periphFreq (irq_count_loop devices 0) devices
                  @ dts_footer"
    using gen_riscv_dts_layout [OF assms(1), of devices cpuFreq timeBaseFreq periphFreq dtsPath timeStamp]
    unfolding g by (simp add: irq_count_loop_filter)
  show ?thesis
    using b g o e unfolding p by blast
qed

theorem uart_sentinel_recorded_not_emitted_witness:
  "uart_base [\<lparr>name = ''mem'', base = 0x80000000, length_d = 0x20000000\<rparr>,
              \<lparr>name = ''ariane_plic'', base = 0xc000000, length_d = 0x4000000\<rparr>]
     = 0xDEADBEEF
   \<and> (case gen_riscv_dts [\<lparr>name = ''mem'', base = 0x80000000, length_d = 0x20000000\<rparr>,
                          \<lparr>name = ''ariane_plic'', base = 0xc000000, length_d = 0x4000000\<rparr>]
            1 50000000 390625 50000000 ''/tmp'' ''Jan 01 2024 00:00:00'' of
        Inl e \<Rightarrow> False
      | Inr (path, doc) \<Rightarrow>
          occurrences ''uart@'' doc = 0
          \<and> doc = dts_header ''Jan 01 2024 00:00:00'' 390625
                   @ cpu_node 0 50000000
                   @ cpus_close
                   @ mem_text \<lparr>name = ''mem'', base = 0x80000000, length_d = 0x20000000\<rparr>
                   @ plic_text 1 0 \<lparr>name = ''ariane_plic'', base = 0xc000000, length_d = 0x4000000\<rparr>
                   @ dts_footer)"
proof -
  define devs where "devs = [\<lparr>name = ''mem'', base = 0x80000000, length_d = 0x20000000\<rparr>,
                             \<lparr>name = ''ariane_plic'', base = 0xc000000, length_d = 0x4000000\<rparr>]"
  have n: "(1::int) \<le> 1" by simp
  have h: "\<forall>d\<in>set devs. name d \<noteq> ''uart''" by (simp add: devs_def)
  have t: "occurrences ''uart@'' ''Jan 01 2024 00:00:00'' = 0" by simp
  have i: "irq_count_loop devs 0 = 0" by (simp add: devs_def devWithIrq_def)
  have l: "[0..<length devs] = [0, 1]"
    by (simp add: devs_def upt_rec [of 0] upt_rec [of 1] upt_rec [of "Suc 0"])
  from uart_sentinel_recorded_not_emitted [OF n h,
        of 50000000 390625 50000000 "''/tmp''" "''Jan 01 2024 00:00:00''"]
  obtain doc
    where b: "uart_base devs = 0xDEADBEEF"
      and g: "gen_riscv_dts devs 1 50000000 390625 50000000 ''/tmp'' ''Jan 01 2024 00:00:00''
                = Inr (''/tmp'' @ ''/rv64_platform.dts'', doc)"
      and o: "occurrences ''uart@'' doc = 0"
      and e: "doc = dts_header ''Jan 01 2024 00:00:00'' 390625
                   @ cpu_node 0 50000000
                   @ cpus_close
                   @ mem_text \<lparr>name = ''mem'', base = 0x80000000, length_d = 0x20000000\<rparr>
                   @ plic_text 1 0 \<lparr>name = ''ariane_plic'', base = 0xc000000, length_d = 0x4000000\<rparr>
                   @ dts_footer"
    unfolding t i l by (auto simp: devs_def)
  show ?thesis
    using b g o e unfolding devs_def by simp
qed

text \<open>
  C7, as stated, has the sentinel emitted in a UART entry of the document. For an
  inventory of one memory device at \<open>0x80000000\<close> the document contains neither
  the digits of the sentinel nor a UART node.
\<close>

theorem uart_sentinel_emitted_counterexample:
  "case gen_riscv_dts [\<lparr>name = ''mem'', base = 0x80000000, length_d = 0x20000000\<rparr>]
          1 50000000 390625 50000000 ''/tmp'' ''Jan 01 2024 00:00:00'' of
     Inl e \<Rightarrow> False
   | Inr (path, doc) \<Rightarrow> occurrences ''deadbeef'' doc = 0 \<and> occurrences ''uart@'' doc = 0"
  by code_simp

text \<open>
  C10. With at least one core, an inventory that has a \<open>uart\<close> or \<open>net\<close> device
  and no \<open>ariane_plic\<close> device is built without an error. No PLIC node is part of
  the document; the device at position \<open>j\<close> gets the interrupt number
  \<open>1 +\<close> the number of \<open>uart\<close> and \<open>net\<close> devices in front of it; every UART and
  Ethernet node names \<open>&PLIC0\<close> as its interrupt parent, followed by its interrupt
  number; and the count of the counting loop equals the numbers handed out.
\<close>

theorem no_plic_still_builds:
  assumes "1 \<le> nCpus"
    and "\<exists>d\<in>set devices. name d = ''uart'' \<or> name d = ''net''"
    and "\<forall>d\<in>set devices. name d \<noteq> ''ariane_plic''"
  shows "gen_riscv_dts devices nCpus cpuFreq timeBaseFreq periphFreq dtsPath timeStamp =
           Inr (dtsPath @ ''/rv64_platform.dts'',
                dts_header timeStamp timeBaseFreq
                @ concat (map (\<lambda>k. cpu_node k cpuFreq) [0..nCpus - 1])
                @ cpus_close
                @ concat (map mem_text (filter (\<lambda>d. name d = ''mem'') devices))
                @ concat (map (\<lambda>j.
                     if name (devices ! j) = ''ariane_clint'' then clint_text nCpus (devices ! j)
                     else if name (devices ! j) = ''uart''
                       then uart_text periphFreq (devices ! j) (irq_index devices j)
                     else if name (devices ! j) = ''sd'' then sd_text (devices ! j)
                     else if name (devices ! j) = ''net''
                       then eth_text (devices ! j) (irq_index devices j)
                     else []) [0..<length devices])
                @ dts_footer)
         \<and> irq_index devices j
             = 1 + int (length (filter (\<lambda>d. name d = ''uart'' \<or> name d = ''net'') (take j devices)))
         \<and> sublist (''interrupt-parent = <&PLIC0>;\<newline>            interrupts = <'' @ fmt_d i @ ''>;'')
               (uart_text periphFreq d i)
         \<and> sublist (''interrupt-parent = <&PLIC0>;\<newline>            interrupts = <'' @ fmt_d i @ ''>;'')
               (eth_text d i)
         \<and> (\<exists>tmpStr' ioDeviceNr.
               periph_loop nCpus periphFreq (irq_count_loop devices 0) devices (tmpStr, 1)
                 = Inr (tmpStr', ioDeviceNr)
               \<and> ioDeviceNr - 1 = irq_count_loop devices 0)"
proof -
  have p: "periph_text nCpus periphFreq (irq_count_loop devices 0) devices =
        concat (map (\<lambda>j.
                     if name (devices ! j) = ''ariane_clint'' then clint_text nCpus (devices ! j)
                     else if name (devices ! j) = ''uart''
                       then uart_text periphFreq (devices ! j) (irq_index devices j)
                     else if name (devices ! j) = ''sd'' then sd_text (devices ! j)
                     else if name (devices ! j) = ''net''
                       then eth_text (devices ! j) (irq_index devices j)
                     else []) [0..<length devices])"
    by (rule periph_text_cong) (use assms(3) in \<open>simp add: dev_text_def\<close>)
  have g: "gen_riscv_dts devices nCpus cpuFreq timeBaseFreq periphFreq dtsPath timeStamp =
           Inr (dtsPath @ ''/rv64_platform.dts'',
                dts_header timeStamp timeBaseFreq
                @ concat (map (\<lambda>k. cpu_node k cpuFreq) [0..nCpus - 1])
                @ cpus_close
                @ concat (map mem_text (filter (\<lambda>d. name d = ''mem'') devices))
                @ concat (map (\<lambda>j.
                     if name (devices ! j) = ''ariane_clint'' then clint_text nCpus (devices ! j)
                     else if name (devices ! j) = ''uart''
                       then uart_text periphFreq (devices ! j) (irq_index devices j)
                     else if name (devices ! j) = ''sd'' then sd_text (devices ! j)
                     else if name (devices ! j) = ''net''
                       then eth_text (devices ! j) (irq_index devices j)
                     else []) [0..<length devices])
                @ dts_footer)"
    using gen_riscv_dts_layout [OF assms(1), of devices cpuFreq timeBaseFreq periphFreq dtsPath timeStamp] p
    by (simp add: irq_count_loop_filter)
  have f: "has_irq = (\<lambda>d. name d = ''uart'' \<or> name d = ''net'')"
    by (rule ext) (simp add: has_irq_def)
  have i: "irq_index devices j
             = 1 + int (length (filter (\<lambda>d. name d = ''uart'' \<or> name d = ''net'') (take j devices)))"
    by (simp add: irq_index_def f)
  have u: "sublist (''interrupt-parent = <&PLIC0>;\<newline>            interrupts = <'' @ fmt_d i @ ''>;'')
               (uart_text periphFreq d i)"
    unfolding uart_text_def uart_node_def sublist_def
    by (intro exI [of _ "''\<newline>        uart0: uart@'' @ fmt_08x (base d) @ '' {\<newline>'' @
     ''            u-boot,dm-pre-reloc;\<newline>'' @
     ''            compatible = \"ns16550\";\<newline>'' @
     ''            reg = <'' @ reg_2_2 (base d) (length_d d) @ ''>;\<newline>'' @
     ''            clock-frequency = <'' @ fmt_d periphFreq @ ''>;\<newline>'' @
     ''            current-speed = <115200>;\<newline>'' @
     ''            ''"] exI [of _ "''\<newline>            reg-shift = <0>; // regs are spaced on 8 bit boundary (modified from Xilinx UART16550 to be ns16550 compatible)\<newline>        };\<newline>            ''"]) simp
  have e: "sublist (''interrupt-parent = <&PLIC0>;\<newline>            interrupts = <'' @ fmt_d i @ ''>;'')
               (eth_text d i)"
    unfolding eth_text_def eth_node_def sublist_def
    by (intro exI [of _ "''\<newline>        eth: ethernet@'' @ fmt_08x (base d) @ '' {\<newline>'' @
     ''            compatible = \"xlnx,xps-ethernetlite-1.00.a\";\<newline>'' @
     ''            device_type = \"network\";\<newline>'' @
     ''            reg = <'' @ reg_2_2 (base d) (length_d d) @ ''>;\<newline>'' @
     ''            ''"] exI [of _ "''\<newline>'' @
     ''            local-mac-address = [ 00 18 3E 02 E3 E5 ];\<newline>'' @
     ''            phy-handle = <&phy0>;\<newline>'' @
     ''            xlnx,duplex = <0x1>;\<newline>'' @
     ''            xlnx,include-global-buffers = <0x1>;\<newline>'' @
     ''            xlnx,include-internal-loopback = <0x0>;\<newline>'' @
     ''            xlnx,include-mdio = <0x1>;\<newline>'' @
     ''            xlnx,rx-ping-pong = <0x1>;\<newline>'' @
     ''            xlnx,s-axi-id-width = <0x1>;\<newline>'' @
     ''            xlnx,tx-ping-pong = <0x1>;\<newline>'' @
     ''            xlnx,use-internal = <0x0>;\<newline>'' @
     ''            axi_ethernetlite_0_mdio: mdio {\<newline>'' @
     ''                #address-cells = <1>;\<newline>'' @
     ''                #size-cells = <0>;\<newline>'' @
     ''                phy0: phy@1 {\<newline>'' @
     ''                    compatible = \"ethernet-phy-id001C.C915\";\<newline>'' @
     ''                    device_type = \"ethernet-phy\";\<newline>'' @
     ''                    reg = <1>;\<newline>'' @
     ''                };\<newline>'' @
     ''            };\<newline>'' @
     ''        };\<newline>'' @
     ''            ''"]) simp
  have l: "\<exists>tmpStr' ioDeviceNr.
               periph_loop nCpus periphFreq (irq_count_loop devices 0) devices (tmpStr, 1)
                 = Inr (tmpStr', ioDeviceNr)
               \<and> ioDeviceNr - 1 = irq_count_loop devices 0"
    by (simp add: periph_loop_text irq_count_loop_filter)
  show ?thesis using g i u e l by blast
qed

theorem no_plic_still_builds_witness:
  "gen_riscv_dts [\<lparr>name = ''uart'', base = 0x10000, length_d = 0x1000\<rparr>,
                  \<lparr>name = ''net'', base = 0x40000, length_d = 0x1000\<rparr>]
       1 50000000 390625 50000000 ''/tmp'' ''Jan 01 2024 00:00:00'' =
     Inr (''/tmp/rv64_platform.dts'',
          dts_header ''Jan 01 2024 00:00:00'' 390625
          @ cpu_node 0 50000000
          @ cpus_close
          @ uart_text 50000000 \<lparr>name = ''uart'', base = 0x10000, length_d = 0x1000\<rparr> 1
          @ eth_text \<lparr>name = ''net'', base = 0x40000, length_d = 0x1000\<rparr> 2
          @ dts_footer)
   \<and> sublist ''interrupt-parent = <&PLIC0>;\<newline>            interrupts = <1>;''
         (uart_text 50000000 \<lparr>name = ''uart'', base = 0x10000, length_d = 0x1000\<rparr> 1)
   \<and> sublist ''interrupt-parent = <&PLIC0>;\<newline>            interrupts = <2>;''
         (eth_text \<lparr>name = ''net'', base = 0x40000, length_d = 0x1000\<rparr> 2)"
proof -
  have n: "(1::int) \<le> 1" by simp
  have h1: "\<exists>d\<in>set [\<lparr>name = ''uart'', base = 0x10000, length_d = 0x1000\<rparr>,
                      \<lparr>name = ''net'', base = 0x40000, length_d = 0x1000\<rparr>].
             name d = ''uart'' \<or> name d = ''net''" by simp
  have h2: "\<forall>d\<in>set [\<lparr>name = ''uart'', base = 0x10000, length_d = 0x1000\<rparr>,
                      \<lparr>name = ''net'', base = 0x40000, length_d = 0x1000\<rparr>].
             name d \<noteq> ''ariane_plic''" by simp
  have d: "fmt_d 1 = ''1''" "fmt_d 2 = ''2''" by (simp_all add: fmt_d_def hex_char_def dec_digits.simps)
  have t: "gen_riscv_dts [\<lparr>name = ''uart'', base = 0x10000, length_d = 0x1000\<rparr>,
                  \<lparr>name = ''net'', base = 0x40000, length_d = 0x1000\<rparr>]
       1 50000000 390625 50000000 ''/tmp'' ''Jan 01 2024 00:00:00'' =
     Inr (''/tmp/rv64_platform.dts'',
          dts_header ''Jan 01 2024 00:00:00'' 390625
          @ cpu_node 0 50000000
          @ cpus_close
          @ uart_text 50000000 \<lparr>name = ''uart'', base = 0x10000, length_d = 0x1000\<rparr> 1
          @ eth_text \<lparr>name = ''net'', base = 0x40000, length_d = 0x1000\<rparr> 2
          @ dts_footer)"
    using no_plic_still_builds [OF n h1 h2,
        of 50000000 390625 50000000 "''/tmp''" "''Jan 01 2024 00:00:00''"]
    by (simp add: irq_index_def has_irq_def upt_rec [of 0] upt_rec [of 1] upt_rec [of "Suc 0"])
  have u: "sublist ''interrupt-parent = <&PLIC0>;\<newline>            interrupts = <1>;''
         (uart_text 50000000 \<lparr>name = ''uart'', base = 0x10000, length_d = 0x1000\<rparr> 1)"
    using no_plic_still_builds [OF n h1 h2, where i = 1 and periphFreq = 50000000
        and d = "\<lparr>name = ''uart'', base = 0x10000, length_d = 0x1000\<rparr>"]
    by (simp add: d)
  have e: "sublist ''interrupt-parent = <&PLIC0>;\<newline>            interrupts = <2>;''
         (eth_text \<lparr>name = ''net'', base = 0x40000, length_d = 0x1000\<rparr> 2)"
    using no_plic_still_builds [OF n h1 h2, where i = 2
        and d = "\<lparr>name = ''net'', base = 0x40000, length_d = 0x1000\<rparr>"]
    by (simp add: d)
  show ?thesis using t u e by simp
qed

section \<open>The info string of the boot ROM\<close>

text \<open>
  C8. Whenever \<open>get_bootrom_info\<close> produces the info string: if the board name
  \<open>PROTOSYN_RUNTIME_BOARD\<close> is unset or empty, the string has the line
  \<open>FPGA Board:        None (Simulation)\<close>; and if the system frequency
  \<open>CONFIG_SYS_FREQ\<close> is unset, it has the line \<open>Core Freq:         Unknown\<close>.
\<close>

theorem banner_fallbacks:
  assumes "get_bootrom_info w devices nCpus cpuFreq timeBaseFreq periphFreq dtsPath timeStamp
             = Inr (path, banner)"
  shows "(environ w ''PROTOSYN_RUNTIME_BOARD'' = None \<or> environ w ''PROTOSYN_RUNTIME_BOARD'' = Some []
            \<longrightarrow> sublist (''\"FPGA Board:        None (Simulation)                   '' @ esc_crlf @ ''\"\<newline>'')
                  banner)
         \<and> (environ w ''CONFIG_SYS_FREQ'' = None
            \<longrightarrow> sublist (''\"Core Freq:         Unknown                   '' @ esc_crlf @ ''\"\<newline>'')
                  banner)"
proof -
  from assms obtain piton_ver ariane_ver xTiles yTiles numTiles sysFreq network dramMB
      l1iKB l1iAssoc l1dKB l1dAssoc l15KB l15Assoc l2KB l2Assoc
    where f: "sys_freq w = Inr sysFreq"
      and b: "banner = info_text timeStamp piton_ver ariane_ver (board_name w) xTiles yTiles
                numTiles sysFreq network dramMB l1iKB l1iAssoc l1dKB l1dAssoc l15KB l15Assoc
                l2KB l2Assoc"
    by (rule get_bootrom_info_Inr)
  have 1: "sublist (''\"FPGA Board:        None (Simulation)                   '' @ esc_crlf @ ''\"\<newline>'')
             banner"
    if "environ w ''PROTOSYN_RUNTIME_BOARD'' = None \<or> environ w ''PROTOSYN_RUNTIME_BOARD'' = Some []"
  proof -
    have "board_name w = ''None (Simulation)''" using that by (auto simp: board_name_def)
    then show ?thesis
      using info_text_lines(1) [of "''None (Simulation)''"] unfolding b by simp
  qed
  have 2: "sublist (''\"Core Freq:         Unknown                   '' @ esc_crlf @ ''\"\<newline>'') banner"
    if "environ w ''CONFIG_SYS_FREQ'' = None"
  proof -
    have "sysFreq = ''Unknown''" using that f by (simp add: sys_freq_def)
    then show ?thesis
      using info_text_lines(2) [of "''Unknown''"] unfolding b by simp
  qed
  show ?thesis using 1 2 by blast
qed

theorem banner_fallbacks_witness:
  "case get_bootrom_info example_world
          [\<lparr>name = ''mem'', base = 0x80000000, length_d = 0x20000000\<rparr>]
          2 50000000 390625 50000000 ''/tmp'' ''Jan 01 2024 00:00:00'' of
     Inl e \<Rightarrow> False
   | Inr (path, banner) \<Rightarrow>
       sublist (''\"FPGA Board:        None (Simulation)                   '' @ esc_crlf @ ''\"\<newline>'') banner
       \<and> sublist (''\"Core Freq:         Unknown                   '' @ esc_crlf @ ''\"\<newline>'') banner"
proof -
  have e: "environ example_world ''PROTOSYN_RUNTIME_BOARD'' = None"
    "environ example_world ''CONFIG_SYS_FREQ'' = None"
    by (simp_all add: example_world_def)
  show ?thesis
    unfolding example_info sum.case prod.case
    using banner_fallbacks [OF example_info] e by blast
qed

text \<open>
  C9, as the code has it. The megabytes are \<open>int(memLen/1024/1024)\<close>, two float
  divisions and a truncation. For a memory length \<open>0 \<le> memLen < 2 ^ 64\<close> the
  number printed after \<open>DRAM Size:\<close> is the floor of \<open>d / 2 ^ 20\<close>, where
  \<open>d\<close> is the float nearest to \<open>memLen\<close>; up to \<open>memLen = 2 ^ 53\<close> that float
  is \<open>memLen\<close> itself and the number is \<open>memLen div 2 ^ 20\<close>. \<open>memLen\<close> is the
  length of the last device named \<open>mem\<close>, and 0 without one.
\<close>

theorem dram_size_printed:
  assumes "get_bootrom_info w devices nCpus cpuFreq timeBaseFreq periphFreq dtsPath timeStamp
             = Inr (path, banner)"
    and "0 \<le> mem_len_loop devices 0" and "mem_len_loop devices 0 < 2 ^ 64"
  shows "sublist (''\"DRAM Size:         ''
                  @ fmt_d \<lfloor>round_double (of_int (mem_len_loop devices 0)) / 2 ^ 20\<rfloor>
                  @ '' MB                '' @ esc_crlf @ ''\"\<newline>'') banner
         \<and> (mem_len_loop devices 0 \<le> 2 ^ 53
            \<longrightarrow> \<lfloor>round_double (of_int (mem_len_loop devices 0)) / 2 ^ 20\<rfloor>
                  = mem_len_loop devices 0 div 2 ^ 20)
         \<and> mem_len_loop devices 0
             = (case filter (\<lambda>d. name d = ''mem'') devices of
                  [] \<Rightarrow> 0 | m # ms \<Rightarrow> length_d (last (m # ms)))"
proof -
  from assms(1) obtain piton_ver ariane_ver xTiles yTiles numTiles sysFreq network dramMB
      l1iKB l1iAssoc l1dKB l1dAssoc l15KB l15Assoc l2KB l2Assoc
    where d: "dram_mb (mem_len_loop devices 0) = Inr dramMB"
      and b: "banner = info_text timeStamp piton_ver ariane_ver (board_name w) xTiles yTiles
                numTiles sysFreq network dramMB l1iKB l1iAssoc l1dKB l1dAssoc l15KB l15Assoc
                l2KB l2Assoc"
    by (rule get_bootrom_info_Inr)
  have v: "dramMB = \<lfloor>round_double (of_int (mem_len_loop devices 0)) / 2 ^ 20\<rfloor>"
    using d dram_mb_value [OF assms(2,3)] by simp
  have 1: "sublist (''\"DRAM Size:         ''
                  @ fmt_d \<lfloor>round_double (of_int (mem_len_loop devices 0)) / 2 ^ 20\<rfloor>
                  @ '' MB                '' @ esc_crlf @ ''\"\<newline>'') banner"
    unfolding b v [symmetric] by (rule info_text_lines(3))
  have 2: "\<lfloor>round_double (of_int (mem_len_loop devices 0)) / 2 ^ 20\<rfloor>
             = mem_len_loop devices 0 div 2 ^ 20"
    if "mem_len_loop devices 0 \<le> 2 ^ 53"
    using dram_mb_exact [OF assms(2) that] dram_mb_value [OF assms(2,3)] by simp
  show ?thesis using 1 2 mem_len_loop_last [of devices 0] by blast
qed

theorem dram_size_printed_witness:
  "case get_bootrom_info example_world
          [\<lparr>name = ''mem'', base = 0x80000000, length_d = 0x20000000\<rparr>]
          2 50000000 390625 50000000 ''/tmp'' ''Jan 01 2024 00:00:00'' of
     Inl e \<Rightarrow> False
   | Inr (path, banner) \<Rightarrow>
       sublist (''\"DRAM Size:         512 MB                '' @ esc_crlf @ ''\"\<newline>'') banner"
proof -
  have m: "mem_len_loop [\<lparr>name = ''mem'', base = 0x80000000, length_d = 0x20000000\<rparr>] 0 = 0x20000000"
    by simp
  have h: "0 \<le> mem_len_loop [\<lparr>name = ''mem'', base = 0x80000000, length_d = 0x20000000\<rparr>] 0"
    "mem_len_loop [\<lparr>name = ''mem'', base = 0x80000000, length_d = 0x20000000\<rparr>] 0 < 2 ^ 64"
    "mem_len_loop [\<lparr>name = ''mem'', base = 0x80000000, length_d = 0x20000000\<rparr>] 0 \<le> 2 ^ 53"
    unfolding m by simp_all
  have f: "fmt_d 512 = ''512''" by code_simp
  have d: "(0x20000000 :: int) div 2 ^ 20 = 512" by simp
  have "sublist (''\"DRAM Size:         ''
                  @ fmt_d (mem_len_loop [\<lparr>name = ''mem'', base = 0x80000000, length_d = 0x20000000\<rparr>] 0
                           div 2 ^ 20)
                  @ '' MB                '' @ esc_crlf @ ''\"\<newline>'')
          (info_text ''Jan 01 2024 00:00:00'' (''b'' @ [CHR 0x27] @ ''3f2a1b0c'' @ [CHR 0x27])
            (''b'' @ [CHR 0x27] @ ''3f2a1b0c'' @ [CHR 0x27]) ''None (Simulation)'' 2 1 2 ''Unknown''
            ''2dmesh_config'' 512 16 4 8 4 8 4 64 4)"
    using dram_size_printed [OF example_info h(1,2)] h(3) by metis
  then show ?thesis
    unfolding example_info sum.case prod.case m d f by simp
qed

text \<open>
  C9, as stated, has the exact quotient on the whole 64-bit range. For
  \<open>memLen = 2 ^ 64 - 1\<close> the string shows 17592186044416 megabytes, and the floor of
  \<open>memLen / 2 ^ 20\<close> is 17592186044415.
\<close>

theorem dram_size_exact_counterexample:
  "case get_bootrom_info example_world
          [\<lparr>name = ''mem'', base = 0x80000000, length_d = 2 ^ 64 - 1\<rparr>]
          2 50000000 390625 50000000 ''/tmp'' ''Jan 01 2024 00:00:00'' of
     Inl e \<Rightarrow> False
   | Inr (path, banner) \<Rightarrow>
       sublist ''DRAM Size:         17592186044416 MB'' banner
       \<and> (2 ^ 64 - 1) div 2 ^ 20 = (17592186044415 :: int)"
  by code_simp

end
